theory Spec2Isabelle
  imports Main "HOL-Library.Sublist"
begin

section \<open>Strings and characters\<close>

text \<open>
  Python strings are modelled as \<^typ>\<open>string\<close>, one \<^typ>\<open>char\<close> per code point
  below 256. The template delimiters, the comma, the newline and the range
  \<^verbatim>\<open>A-Z_\<close> are all ASCII.
\<close>

text \<open>\<^verbatim>\<open>s.startswith(p)\<close>.\<close>

definition startswith :: "string \<Rightarrow> string \<Rightarrow> bool" where
  "startswith s p = (take (length p) s = p)"

text \<open>\<^verbatim>\<open>s.endswith(p)\<close>.\<close>

definition endswith :: "string \<Rightarrow> string \<Rightarrow> bool" where
  "endswith s p = (length p \<le> length s \<and> drop (length s - length p) s = p)"

text \<open>\<^verbatim>\<open>p in s\<close> for two strings: \<open>p\<close> occurs in \<open>s\<close> as a contiguous substring.\<close>

fun contains :: "string \<Rightarrow> string \<Rightarrow> bool" where
  "contains [] p = (p = [])"
| "contains (c # cs) p = (startswith (c # cs) p \<or> contains cs p)"

text \<open>
  \<^verbatim>\<open>s.replace(old, new)\<close>: the occurrences of \<open>old\<close> are replaced from left to
  right, the search resuming after each replaced occurrence. For an empty
  \<open>old\<close> Python puts \<open>new\<close> before every character and at the end.
\<close>

fun str_replace :: "string \<Rightarrow> string \<Rightarrow> string \<Rightarrow> string" where
  "str_replace [] old new = (if old = [] then new else [])"
| "str_replace (c # cs) old new =
     (if old = [] then new @ c # str_replace cs old new
      else if startswith (c # cs) old
      then new @ str_replace (drop (length old - 1) cs) old new
      else c # str_replace cs old new)"

text \<open>\<^verbatim>\<open>c.isspace()\<close> for the code points below 256.\<close>

definition is_space :: "char \<Rightarrow> bool" where
  "is_space c = ((of_char c :: nat) \<in> {9, 10, 11, 12, 13, 28, 29, 30, 31, 32, 133, 160})"

text \<open>\<^verbatim>\<open>s.strip()\<close>.\<close>

definition strip :: "string \<Rightarrow> string" where
  "strip s = rev (dropWhile is_space (rev (dropWhile is_space s)))"

text \<open>
  \<^verbatim>\<open>s.split(sep)\<close> for a separator of one character: every separator ends a
  field, so the result is never empty and \<^verbatim>\<open>"".split(",")\<close> is \<^verbatim>\<open>[""]\<close>.
\<close>

fun split :: "string \<Rightarrow> char \<Rightarrow> string list" where
  "split [] sep = [[]]"
| "split (c # cs) sep =
     (if c = sep then [] # split cs sep
      else (c # hd (split cs sep)) # tl (split cs sep))"

text \<open>\<^verbatim>\<open>sep.join(xs)\<close>.\<close>

fun join :: "string \<Rightarrow> string list \<Rightarrow> string" where
  "join sep [] = []"
| "join sep [x] = x"
| "join sep (x # y # ys) = x @ sep @ join sep (y # ys)"

section \<open>Python values and exceptions\<close>

text \<open>
  The values a template is filled with: \<^verbatim>\<open>None\<close>, a string or an integer
  (the reading time is one). \<^verbatim>\<open>str(v)\<close> is \<open>py_str\<close>.
\<close>

datatype pyval = PyNone | PyStr string | PyInt int

fun str_nat :: "nat \<Rightarrow> string" where
  "str_nat n =
     (if n < 10 then [char_of (48 + n)]
      else str_nat (n div 10) @ [char_of (48 + n mod 10)])"

definition str_int :: "int \<Rightarrow> string" where
  "str_int i = (if i < 0 then ''-'' @ str_nat (nat (- i)) else str_nat (nat i))"

fun py_str :: "pyval \<Rightarrow> string" where
  "py_str PyNone = ''None''"
| "py_str (PyStr s) = s"
| "py_str (PyInt i) = str_int i"

datatype error =
    ValueError string
  | KeyError string
  | TypeError
  | OperationalError
  | IntegrityError

section \<open>The builtin placeholder catalog (utils/html\_processor.py)\<close>

record placeholder_info =
  description :: string
  required :: bool

text \<open>
  The dictionary \<^verbatim>\<open>PLACEHOLDERS\<close>, in insertion order (the order in which Python
  iterates over it). Accented letters of the descriptions are given by their
  Latin-1 code.
\<close>

definition PLACEHOLDERS :: "(string \<times> placeholder_info) list" where
  "PLACEHOLDERS =
   [(''{{TITLE}}'',
       \<lparr>description = ''T'' @ [CHR 0xED] @ ''tulo del post'', required = True\<rparr>),
    (''{{SITE_NAME}}'',
       \<lparr>description = ''Nombre del sitio'', required = True\<rparr>),
    (''{{META_DESCRIPTION}}'',
       \<lparr>description = ''Meta descripci'' @ [CHR 0xF3] @ ''n del post'', required = True\<rparr>),
    (''{{FEATURE_IMAGE}}'',
       \<lparr>description = ''Imagen principal del post'', required = True\<rparr>),
    (''{{PUBLISHED_TIME}}'',
       \<lparr>description = ''Fecha de publicaci'' @ [CHR 0xF3] @ ''n'', required = True\<rparr>),
    (''{{CATEGORY}}'',
       \<lparr>description = ''Categor'' @ [CHR 0xED] @ ''a asignada'', required = True\<rparr>),
    (''{{LAST_MODIFIED}}'',
       \<lparr>description = [CHR 0xDA] @ ''ltima fecha de modificaci'' @ [CHR 0xF3] @ ''n'',
        required = False\<rparr>),
    (''{{SITE_URL}}'',
       \<lparr>description = ''Dominio del sitio'', required = True\<rparr>),
    (''{{ARTICLE_URL}}'',
       \<lparr>description = ''URL final del art'' @ [CHR 0xED] @ ''culo (dominio + slug)'',
        required = True\<rparr>),
    (''{{CONTENT}}'',
       \<lparr>description = ''Contenido en HTML'', required = True\<rparr>),
    (''{{FEATURE_IMAGE_ALT}}'',
       \<lparr>description = ''Texto alternativo de imagen'', required = False\<rparr>),
    (''{{READING_TIME}}'',
       \<lparr>description = ''Tiempo estimado de lectura'', required = False\<rparr>),
    (''{{SOURCE_LIST}}'',
       \<lparr>description = ''Lista de fuentes'', required = False\<rparr>),
    (''{{SLUG}}'',
       \<lparr>description = ''URL amigable generado a partir del t'' @ [CHR 0xED] @ ''tulo'',
        required = True\<rparr>),
    (''{{POST_MONTH}}'',
       \<lparr>description = ''Nombre del mes de publicaci'' @ [CHR 0xF3] @ ''n (Ej: Ene, Feb)'',
        required = False\<rparr>)]"

text \<open>
  The three lists by which the template upload handler (core/handlers.py)
  classifies the builtin names: compulsory, generated by the system, optional.
\<close>

definition required_placeholders :: "string list" where
  "required_placeholders =
   [''{{TITLE}}'',
    ''{{META_DESCRIPTION}}'',
    ''{{FEATURE_IMAGE}}'',
    ''{{PUBLISHED_TIME}}'',
    ''{{CATEGORY}}'',
    ''{{SITE_URL}}'',
    ''{{ARTICLE_URL}}'',
    ''{{CONTENT}}'']"

definition auto_placeholders :: "string list" where
  "auto_placeholders =
   [''{{SITE_NAME}}'',
    ''{{SLUG}}'']"

definition optional_placeholders :: "string list" where
  "optional_placeholders =
   [''{{LAST_MODIFIED}}'',
    ''{{FEATURE_IMAGE_ALT}}'',
    ''{{READING_TIME}}'',
    ''{{SOURCE_LIST}}'',
    ''{{POST_MONTH}}'']"

section \<open>The template scanner (utils/html\_processor.py)\<close>

text \<open>The character class \<^verbatim>\<open>[A-Z_]\<close>.\<close>

definition is_name_char :: "char \<Rightarrow> bool" where
  "is_name_char c = ((65 \<le> (of_char c :: nat) \<and> (of_char c :: nat) \<le> 90) \<or> c = CHR ''_'')"

text \<open>
  One attempt, at the head of a string, of a regular expression made of the
  opening delimiter, one or more characters of a class and the closing
  delimiter: the name between the delimiters and the text after the match. The
  class is greedy; both classes used here exclude the closing brace, so giving a
  character back never helps.
\<close>

definition match_class :: "(char \<Rightarrow> bool) \<Rightarrow> string \<Rightarrow> (string \<times> string) option" where
  "match_class cls s =
     (if startswith s ''{{'' then
        (let body = drop 2 s;
             name = takeWhile cls body;
             rest = dropWhile cls body
         in if name \<noteq> [] \<and> startswith rest ''}}''
            then Some (name, drop 2 rest)
            else None)
      else None)"

text \<open>
  \<^verbatim>\<open>re.findall\<close> for such an expression: the names matched from left to right,
  the search resuming after each match, one character further after a failed
  attempt.
\<close>

function findall_class :: "(char \<Rightarrow> bool) \<Rightarrow> string \<Rightarrow> string list" where
  "findall_class cls [] = []"
| "findall_class cls (c # cs) =
     (case match_class cls (c # cs) of
        Some (name, rest) \<Rightarrow> name # findall_class cls rest
      | None \<Rightarrow> findall_class cls cs)"
  by pat_completeness auto
termination
proof (relation "measure (\<lambda>(cls, s). length s)")
  show "wf (measure (\<lambda>(cls :: char \<Rightarrow> bool, s :: string). length s))" by simp
next
  fix cls :: "char \<Rightarrow> bool" and c :: char and cs :: string
    and x2 :: "string \<times> string" and name rest :: string
  assume "match_class cls (c # cs) = Some x2" and "(name, rest) = x2"
  then have "rest = drop 2 (dropWhile cls (drop 2 (c # cs)))"
    by (auto simp: match_class_def Let_def split: if_splits)
  moreover have "length (dropWhile cls (drop 2 (c # cs))) \<le> length (drop 2 (c # cs))"
    by (rule length_dropWhile_le)
  ultimately show "((cls, rest), (cls, c # cs)) \<in> measure (\<lambda>(cls, s). length s)" by simp
next
  fix cls :: "char \<Rightarrow> bool" and c :: char and cs :: string
  show "((cls, cs), (cls, c # cs)) \<in> measure (\<lambda>(cls, s). length s)" by simp
qed

record scan_result =
  required_found :: "string list"
  optional_found :: "string list"
  missing :: "string list"
  unknown :: "string list"

text \<open>
  The first loop of \<^verbatim>\<open>find_placeholders_in_template\<close>, over the catalog in its
  order: a catalog name that was found goes to \<^verbatim>\<open>required\<close> or \<^verbatim>\<open>optional\<close>
  by its flag, one that was not found goes to \<^verbatim>\<open>missing\<close>.
\<close>

fun classify_catalog ::
  "(string \<times> placeholder_info) list \<Rightarrow> string set \<Rightarrow> scan_result \<Rightarrow> scan_result" where
  "classify_catalog [] found res = res"
| "classify_catalog ((placeholder, info) # ps) found res =
     classify_catalog ps found
       (if placeholder \<in> found then
          (if required info
           then res\<lparr>required_found := required_found res @ [placeholder]\<rparr>
           else res\<lparr>optional_found := optional_found res @ [placeholder]\<rparr>)
        else res\<lparr>missing := missing res @ [placeholder]\<rparr>)"

text \<open>
  \<^verbatim>\<open>find_placeholders_in_template\<close>. Its expression \<^verbatim>\<open>{{[A-Z_]+}}\<close> has no
  group, so \<^verbatim>\<open>findall\<close> returns the matched texts with their delimiters. The
  second loop runs over a Python set, whose order is not fixed; the model lists
  each found text once, in the order of \<^const>\<open>remdups\<close>, and the theorems speak
  of membership only.
\<close>

definition find_placeholders_in_template :: "string \<Rightarrow> scan_result" where
  "find_placeholders_in_template template =
     (let found_list = map (\<lambda>name. ''{{'' @ name @ ''}}'') (findall_class is_name_char template);
          found_placeholders = set found_list;
          result = classify_catalog PLACEHOLDERS found_placeholders
                     \<lparr>required_found = [], optional_found = [], missing = [], unknown = []\<rparr>
      in result\<lparr>unknown := unknown result @
           filter (\<lambda>found. found \<notin> set (map fst PLACEHOLDERS)) (remdups found_list)\<rparr>)"

section \<open>The checks of the template upload (core/handlers.py)\<close>

record upload_check =
  missing_required :: "string list"
  present_optional :: "string list"
  present_auto :: "string list"
  unknown_placeholders :: "string list"

text \<open>
  The loop that collects the unknown placeholders of an uploaded template: each
  match of \<^verbatim>\<open>{{([^}]+)}}\<close>, with its delimiters put back, is kept when it is
  not a builtin name and not yet in the list.
\<close>

fun collect_unknown :: "string list \<Rightarrow> string list \<Rightarrow> string list \<Rightarrow> string list" where
  "collect_unknown all_known [] acc = acc"
| "collect_unknown all_known (m # matches) acc =
     (let placeholder = ''{{'' @ m @ ''}}''
      in collect_unknown all_known matches
           (if placeholder \<notin> set all_known \<and> placeholder \<notin> set acc
            then acc @ [placeholder] else acc))"

text \<open>
  The part of \<^verbatim>\<open>handle_template_upload\<close> (and, with the same lines, of
  \<^verbatim>\<open>handle_document_upload\<close>) that checks the downloaded text against the
  three lists of builtin names.
\<close>

definition check_upload :: "string \<Rightarrow> upload_check" where
  "check_upload html_content =
     (let all_known = required_placeholders @ optional_placeholders @ auto_placeholders;
          matches = findall_class (\<lambda>c. c \<noteq> CHR 0x7D) html_content
      in \<lparr>missing_required = filter (\<lambda>ph. \<not> contains html_content ph) required_placeholders,
          present_optional = filter (\<lambda>ph. contains html_content ph) optional_placeholders,
          present_auto = filter (\<lambda>ph. contains html_content ph) auto_placeholders,
          unknown_placeholders = collect_unknown all_known matches []\<rparr>)"

section \<open>The non-failing renderer (utils/html\_processor.py)\<close>

text \<open>
  \<^verbatim>\<open>replace_placeholders\<close>: the loop over \<^verbatim>\<open>values.items()\<close>, in the order of
  the dictionary, which an association list keeps. A key that does not start
  with the opening delimiter is wrapped in delimiters (\<open>search_text\<close>); every
  occurrence of the resulting text is replaced in what the earlier keys have
  produced.
\<close>

definition search_text :: "string \<Rightarrow> string" where
  "search_text placeholder =
     (if \<not> startswith placeholder ''{{'' then ''{{'' @ placeholder @ ''}}'' else placeholder)"

fun replace_placeholders :: "string \<Rightarrow> (string \<times> pyval) list \<Rightarrow> string" where
  "replace_placeholders result [] = result"
| "replace_placeholders result ((placeholder, v) # values) =
     replace_placeholders
       (str_replace result (search_text placeholder) (if v \<noteq> PyNone then py_str v else []))
       values"

text \<open>
  The names that the delimiter grammar admits: no brace inside. A key of the
  values is such a name, bare or between its delimiters.
\<close>

definition brace_free :: "string \<Rightarrow> bool" where
  "brace_free n = (CHR 0x7B \<notin> set n \<and> CHR 0x7D \<notin> set n)"

definition placeholder_key :: "string \<Rightarrow> bool" where
  "placeholder_key k =
     (brace_free k \<or>
      (startswith k ''{{'' \<and> endswith k ''}}'' \<and> 4 \<le> length k \<and>
       brace_free (drop 2 (take (length k - 2) k))))"

section \<open>The value validators\<close>

text \<open>
  \<^verbatim>\<open>validate_placeholder_value\<close> of utils/html\_processor.py. The value and the
  options are a string or \<^verbatim>\<open>None\<close>; \<open>float_ok v\<close> says whether Python's
  \<^verbatim>\<open>float(v)\<close> returns (it is the language's, not this program's).
\<close>

definition falsy :: "string option \<Rightarrow> bool" where
  "falsy v = (v = None \<or> v = Some [])"

definition validate_placeholder_value ::
  "(string \<Rightarrow> bool) \<Rightarrow> string \<Rightarrow> string option \<Rightarrow> string option \<Rightarrow> bool" where
  "validate_placeholder_value float_ok placeholder_type val options =
     (if falsy val then True
      else if placeholder_type = ''numero'' then float_ok (the val)
      else if placeholder_type = ''url''
        then startswith (the val) ''http://'' \<or> startswith (the val) ''https://''
      else if placeholder_type = ''desplegable''
        then (if falsy options then True
              else (let options_list = map strip (split (the options) CHR '','')
                    in the val \<in> set options_list))
      else True)"

text \<open>
  The class \<^verbatim>\<open>CustomPlaceholder\<close> of models/placeholder.py (the two time stamps
  are left out: no operation modelled here reads them) and its method
  \<^verbatim>\<open>validate_value\<close>.
\<close>

record CustomPlaceholder =
  row_id :: "nat option"
  site_id :: nat
  placeholder_name :: string
  display_name :: string
  placeholder_type :: string
  options :: "string option"

definition validate_value :: "(string \<Rightarrow> bool) \<Rightarrow> CustomPlaceholder \<Rightarrow> string option \<Rightarrow> bool" where
  "validate_value float_ok self val =
     (if falsy val then True
      else if placeholder_type self = ''numero'' then float_ok (the val)
      else if placeholder_type self = ''url''
        then startswith (the val) ''http://'' \<or> startswith (the val) ''https://''
      else if placeholder_type self = ''desplegable''
        then (let options_list =
                    (if \<not> falsy (options self)
                     then map strip (split (the (options self)) CHR '','') else [])
              in the val \<in> set options_list)
      else True)"

text \<open>
  The words of the specification for the enumerated kind, to compare the
  validators with: \<open>fs\<close> is the list of the fields of \<open>s\<close> between its commas,
  and \<open>t\<close> is \<open>s\<close> without the white space around it.
\<close>

definition comma_fields :: "string \<Rightarrow> string list \<Rightarrow> bool" where
  "comma_fields s fs = (fs \<noteq> [] \<and> (\<forall>f \<in> set fs. CHR '','' \<notin> set f) \<and> s = join '','' fs)"

definition trimmed :: "string \<Rightarrow> string \<Rightarrow> bool" where
  "trimmed s t =
     (\<exists>l r. s = l @ t @ r \<and> (\<forall>c \<in> set l. is_space c) \<and> (\<forall>c \<in> set r. is_space c) \<and>
            (t = [] \<or> (\<not> is_space (hd t) \<and> \<not> is_space (last t))))"

definition allowed_values :: "string \<Rightarrow> string set" where
  "allowed_values opts = {t. \<exists>fs f. comma_fields opts fs \<and> f \<in> set fs \<and> trimmed f t}"

section \<open>The failing renderer (placeholder\_bot.py)\<close>

text \<open>
  The lazy group and the closing delimiter of \<^verbatim>\<open>\{\{(.*?)\}\}\<close>, tried right after
  an opening delimiter: the group ends at the first closing delimiter, and there
  is no match when a newline comes first (the dot does not match it). The result
  is the group and the text after the match.
\<close>

fun lazy_group :: "string \<Rightarrow> (string \<times> string) option" where
  "lazy_group [] = None"
| "lazy_group (c # cs) =
     (if startswith (c # cs) ''}}'' then Some ([], drop 2 (c # cs))
      else if c = CHR 0x0A then None
      else (case lazy_group cs of
              None \<Rightarrow> None
            | Some (g, rest) \<Rightarrow> Some (c # g, rest)))"

definition match_placeholder :: "string \<Rightarrow> (string \<times> string) option" where
  "match_placeholder s = (if startswith s ''{{'' then lazy_group (drop 2 s) else None)"

text \<open>
  The scan that \<^verbatim>\<open>findall\<close> and \<^verbatim>\<open>sub\<close> of \<^verbatim>\<open>PLACEHOLDER_PATTERN\<close> share:
  the template cut into the matches (\<open>Inr\<close> of the group) and the characters
  between them (\<open>Inl\<close>).
\<close>

function pattern_scan :: "string \<Rightarrow> (char + string) list" where
  "pattern_scan [] = []"
| "pattern_scan (c # cs) =
     (case match_placeholder (c # cs) of
        Some (g, rest) \<Rightarrow> Inr g # pattern_scan rest
      | None \<Rightarrow> Inl c # pattern_scan cs)"
  by pat_completeness auto
termination
proof (relation "measure length")
  show "wf (measure length)" by simp
next
  fix c :: char and cs :: string and x2 :: "string \<times> string" and g rest :: string
  assume m: "match_placeholder (c # cs) = Some x2" and x2: "(g, rest) = x2"
  have shorter: "lazy_group s = Some (a, b) \<Longrightarrow> length b < length s" for s a b
  proof (induction s arbitrary: a b)
    case Nil
    then show ?case by simp
  next
    case (Cons d ds)
    then show ?case
      by (fastforce split: if_splits option.splits simp: startswith_def)
  qed
  from m x2 have "lazy_group (drop 2 (c # cs)) = Some (g, rest)"
    by (auto simp: match_placeholder_def split: if_splits)
  then have "length rest < length (drop 2 (c # cs))" by (rule shorter)
  then show "(rest, c # cs) \<in> measure length" by simp
next
  fix c :: char and cs :: string
  show "(cs, c # cs) \<in> measure length" by simp
qed

text \<open>\<^verbatim>\<open>detect_placeholders\<close>: \<^verbatim>\<open>findall\<close> returns the groups.\<close>

definition detect_placeholders :: "string \<Rightarrow> string list" where
  "detect_placeholders template =
     concat (map (\<lambda>tok. case tok of Inl c \<Rightarrow> [] | Inr g \<Rightarrow> [g]) (pattern_scan template))"

text \<open>
  \<^verbatim>\<open>PLACEHOLDER_PATTERN.sub(replacer, template)\<close>: each match is replaced by what
  \<open>replacer\<close> returns for its group; an exception of \<open>replacer\<close> ends the call.
\<close>

fun pattern_sub :: "(string \<Rightarrow> error + string) \<Rightarrow> (char + string) list \<Rightarrow> error + string" where
  "pattern_sub replacer [] = Inr []"
| "pattern_sub replacer (Inl c # toks) =
     (case pattern_sub replacer toks of Inl e \<Rightarrow> Inl e | Inr out \<Rightarrow> Inr (c # out))"
| "pattern_sub replacer (Inr g # toks) =
     (case replacer g of
        Inl e \<Rightarrow> Inl e
      | Inr text \<Rightarrow>
          (case pattern_sub replacer toks of Inl e \<Rightarrow> Inl e | Inr out \<Rightarrow> Inr (text @ out)))"

text \<open>The inner function \<^verbatim>\<open>replacer\<close>: \<^verbatim>\<open>str(data[key])\<close>, a \<^verbatim>\<open>KeyError\<close> without the key.\<close>

definition replacer :: "(string \<rightharpoonup> pyval) \<Rightarrow> string \<Rightarrow> error + string" where
  "replacer data key = (case data key of None \<Rightarrow> Inl (KeyError key) | Some v \<Rightarrow> Inr (py_str v))"

definition fill_template :: "string \<Rightarrow> (string \<rightharpoonup> pyval) \<Rightarrow> error + string" where
  "fill_template template data =
     (let placeholders = detect_placeholders template;
          missing_names = filter (\<lambda>ph. ph \<notin> dom data) placeholders
      in if missing_names \<noteq> []
         then Inl (ValueError (''Faltan datos para: '' @ join '', '' missing_names))
         else pattern_sub (replacer data) (pattern_scan template))"

text \<open>
  The words of the specification for a template: pieces of text that hold no
  opening delimiter and do not end with an opening brace (a single brace, as in
  a style sheet, may occur), and placeholders whose names have no brace and no
  line break, written between the delimiters. \<open>referenced\<close> gives the names in
  the order of the template, \<open>substituted\<close> the text with each placeholder
  replaced by the \<^verbatim>\<open>str\<close> of its value, and \<open>listing\<close> the names with a comma
  and a space between each two.
\<close>

datatype segment = Literal string | Placeholder string

fun template_text :: "segment list \<Rightarrow> string" where
  "template_text [] = []"
| "template_text (Literal s # segs) = s @ template_text segs"
| "template_text (Placeholder n # segs) = ''{{'' @ n @ ''}}'' @ template_text segs"

fun referenced :: "segment list \<Rightarrow> string list" where
  "referenced [] = []"
| "referenced (Literal s # segs) = referenced segs"
| "referenced (Placeholder n # segs) = n # referenced segs"

fun plain_segment :: "segment \<Rightarrow> bool" where
  "plain_segment (Literal s) = (\<not> contains s ''{{'' \<and> \<not> endswith s ''{'')"
| "plain_segment (Placeholder n) = (brace_free n \<and> CHR 0x0A \<notin> set n)"

fun substituted :: "(string \<rightharpoonup> pyval) \<Rightarrow> segment list \<Rightarrow> string" where
  "substituted vals [] = []"
| "substituted vals (Literal s # segs) = s @ substituted vals segs"
| "substituted vals (Placeholder n # segs) =
     (case vals n of None \<Rightarrow> [] | Some v \<Rightarrow> py_str v) @ substituted vals segs"

definition listing :: "string list \<Rightarrow> string" where
  "listing names = drop 2 (concat (map (\<lambda>n. '', '' @ n) names))"

section \<open>The row store (database/connection.py and the tables the core uses)\<close>

text \<open>
  The tables that the state engine and the placeholder commit read and write,
  and a schedule of faults: every \<^verbatim>\<open>cur.execute\<close> takes the next entry of the
  schedule and raises when it is \<open>True\<close>; an empty schedule means that the store
  works from then on.
\<close>

record user_state_row =
  telegram_id :: int
  state_enum :: int
  state_data :: "string option"

record User =
  user_pk :: nat
  status :: string

record Site =
  site_pk :: nat
  owner :: nat

record database =
  faults :: "bool list"
  user_states :: "user_state_row list option"
  users :: "int \<rightharpoonup> User"
  sites :: "Site list"
  custom_placeholders :: "CustomPlaceholder list"
  lastrowid :: nat

definition execute :: "database \<Rightarrow> bool \<times> database" where
  "execute d =
     (case faults d of
        [] \<Rightarrow> (True, d)
      | f # fs \<Rightarrow> (\<not> f, d\<lparr>faults := fs\<rparr>))"

section \<open>Conversation states (core/states.py)\<close>

datatype State =
    IDLE
  | REGISTERING
  | CONFIGURING_SITE
  | CONFIGURING_SFTP
  | UPLOADING_TEMPLATE
  | CREATING_CONTENT
  | UPLOADING_IMAGE
  | EDITING_CONTENT
  | MANAGING_CATEGORIES
  | MANAGING_FEATURED
  | CONFIRMING_PUBLISH
  | CONFIGURING_CUSTOM_PLACEHOLDER

text \<open>The numbers that \<^verbatim>\<open>auto()\<close> gives, from 1 on, and \<^verbatim>\<open>State(n)\<close>.\<close>

fun state_value :: "State \<Rightarrow> int" where
  "state_value IDLE = 1"
| "state_value REGISTERING = 2"
| "state_value CONFIGURING_SITE = 3"
| "state_value CONFIGURING_SFTP = 4"
| "state_value UPLOADING_TEMPLATE = 5"
| "state_value CREATING_CONTENT = 6"
| "state_value UPLOADING_IMAGE = 7"
| "state_value EDITING_CONTENT = 8"
| "state_value MANAGING_CATEGORIES = 9"
| "state_value MANAGING_FEATURED = 10"
| "state_value CONFIRMING_PUBLISH = 11"
| "state_value CONFIGURING_CUSTOM_PLACEHOLDER = 12"

definition all_states :: "State list" where
  "all_states =
     [IDLE, REGISTERING, CONFIGURING_SITE, CONFIGURING_SFTP, UPLOADING_TEMPLATE,
      CREATING_CONTENT, UPLOADING_IMAGE, EDITING_CONTENT, MANAGING_CATEGORIES,
      MANAGING_FEATURED, CONFIRMING_PUBLISH, CONFIGURING_CUSTOM_PLACEHOLDER]"

definition State_of :: "int \<Rightarrow> error + State" where
  "State_of n =
     (case filter (\<lambda>s. state_value s = n) all_states of
        [] \<Rightarrow> Inl (ValueError ''is not a valid State'')
      | s # _ \<Rightarrow> Inr s)"

record 'v ConversationData =
  state :: State
  data :: "string \<rightharpoonup> 'v"

definition new_conversation :: "'v ConversationData" where
  "new_conversation = \<lparr>state = IDLE, data = Map.empty\<rparr>"

definition update_state :: "State \<Rightarrow> 'v ConversationData \<Rightarrow> 'v ConversationData" where
  "update_state new_state conv = conv\<lparr>state := new_state\<rparr>"

definition set_data_conv :: "string \<Rightarrow> 'v \<Rightarrow> 'v ConversationData \<Rightarrow> 'v ConversationData" where
  "set_data_conv key v conv = conv\<lparr>data := (data conv)(key \<mapsto> v)\<rparr>"

definition clear_data :: "'v ConversationData \<Rightarrow> 'v ConversationData" where
  "clear_data conv = conv\<lparr>data := Map.empty\<rparr>"

text \<open>
  An entry of the log: its level and the text of the message as the source
  writes it, the fields of the format string not filled in; an error entry
  carries the exception that it reports.
\<close>

datatype log_entry =
    LogError string error
  | LogInfo string
  | LogDebug string

text \<open>
  What the state manager works on: its table \<^verbatim>\<open>conversations\<close>, the row store
  and the log.
\<close>

record 'v world =
  conversations :: "int \<rightharpoonup> 'v ConversationData"
  db :: database
  logs :: "log_entry list"

text \<open>
  The body of the \<^verbatim>\<open>try\<close> block of \<^verbatim>\<open>_save_to_db\<close>: the exception that leaves
  it, if any, and the world it leaves behind. \<open>dumps\<close> is \<^verbatim>\<open>json.dumps\<close>, which
  returns a text or raises (\<open>None\<close>). \<^verbatim>\<open>INSERT OR REPLACE\<close> replaces the row of
  the user; the table is kept in the order of its key, in which a query returns
  the rows.
\<close>

definition save_to_db_try ::
  "((string \<rightharpoonup> 'v) \<Rightarrow> string option) \<Rightarrow> int \<Rightarrow> 'v world \<Rightarrow> error option \<times> 'v world" where
  "save_to_db_try dumps user_id w =
     (case conversations w user_id of
        None \<Rightarrow> (None, w)
      | Some conversation \<Rightarrow>
          (case dumps (data conversation) of
             None \<Rightarrow> (Some TypeError, w)
           | Some text \<Rightarrow>
               (case execute (db w) of
                  (False, d) \<Rightarrow> (Some OperationalError, w\<lparr>db := d\<rparr>)
                | (True, d) \<Rightarrow>
                    (case user_states d of
                       None \<Rightarrow> (Some OperationalError, w\<lparr>db := d\<rparr>)
                     | Some rows \<Rightarrow>
                         (None,
                          w\<lparr>db := d\<lparr>user_states := Some
                                 (insort_key telegram_id
                                    \<lparr>telegram_id = user_id,
                                     state_enum = state_value (state conversation),
                                     state_data = Some text\<rparr>
                                    (filter (\<lambda>r. telegram_id r \<noteq> user_id) rows))\<rparr>,
                            logs := logs w @ [LogDebug ''Estado del usuario {user_id} guardado en la base de datos'']\<rparr>)))))"

text \<open>\<^verbatim>\<open>_save_to_db\<close>: the \<^verbatim>\<open>except\<close> clause logs the exception and returns.\<close>

definition save_to_db ::
  "((string \<rightharpoonup> 'v) \<Rightarrow> string option) \<Rightarrow> int \<Rightarrow> 'v world \<Rightarrow> 'v world" where
  "save_to_db dumps user_id w =
     (case save_to_db_try dumps user_id w of
        (None, w') \<Rightarrow> w'
      | (Some e, w') \<Rightarrow>
          w'\<lparr>logs := logs w' @ [LogError ''Error al guardar estado en la base de datos: {e}'' e]\<rparr>)"

definition get_conversation :: "int \<Rightarrow> 'v world \<Rightarrow> 'v ConversationData \<times> 'v world" where
  "get_conversation user_id w =
     (case conversations w user_id of
        None \<Rightarrow> (new_conversation, w\<lparr>conversations := (conversations w)(user_id \<mapsto> new_conversation)\<rparr>)
      | Some conversation \<Rightarrow> (conversation, w))"

definition set_state ::
  "((string \<rightharpoonup> 'v) \<Rightarrow> string option) \<Rightarrow> int \<Rightarrow> State \<Rightarrow> 'v world \<Rightarrow> 'v world" where
  "set_state dumps user_id st w =
     (case get_conversation user_id w of
        (conversation, w1) \<Rightarrow>
          (let w2 = w1\<lparr>conversations := (conversations w1)(user_id \<mapsto> update_state st conversation)\<rparr>;
               w3 = save_to_db dumps user_id w2
           in w3\<lparr>logs := logs w3 @ [LogInfo ''Estado de usuario {user_id} actualizado a {state.name}'']\<rparr>))"

definition get_state :: "int \<Rightarrow> 'v world \<Rightarrow> State \<times> 'v world" where
  "get_state user_id w =
     (case get_conversation user_id w of (conversation, w1) \<Rightarrow> (state conversation, w1))"

definition set_data ::
  "((string \<rightharpoonup> 'v) \<Rightarrow> string option) \<Rightarrow> int \<Rightarrow> string \<Rightarrow> 'v \<Rightarrow> 'v world \<Rightarrow> 'v world" where
  "set_data dumps user_id key v w =
     (case get_conversation user_id w of
        (conversation, w1) \<Rightarrow>
          save_to_db dumps user_id
            (w1\<lparr>conversations := (conversations w1)(user_id \<mapsto> set_data_conv key v conversation)\<rparr>))"

definition get_data :: "int \<Rightarrow> string \<Rightarrow> 'v world \<Rightarrow> 'v option \<times> 'v world" where
  "get_data user_id key w =
     (case get_conversation user_id w of (conversation, w1) \<Rightarrow> (data conversation key, w1))"

definition clear_user_data ::
  "((string \<rightharpoonup> 'v) \<Rightarrow> string option) \<Rightarrow> int \<Rightarrow> 'v world \<Rightarrow> 'v world" where
  "clear_user_data dumps user_id w =
     (case conversations w user_id of
        None \<Rightarrow> w
      | Some conversation \<Rightarrow>
          save_to_db dumps user_id
            (w\<lparr>conversations := (conversations w)(user_id \<mapsto> clear_data conversation)\<rparr>))"

text \<open>
  \<^verbatim>\<open>User.get_by_telegram_id\<close> of models/user.py: one query; an exception is
  logged and \<^verbatim>\<open>None\<close> returned.
\<close>

definition get_by_telegram_id :: "int \<Rightarrow> 'v world \<Rightarrow> User option \<times> 'v world" where
  "get_by_telegram_id tid w =
     (case execute (db w) of
        (True, d) \<Rightarrow> (users d tid, w\<lparr>db := d\<rparr>)
      | (False, d) \<Rightarrow>
          (None, w\<lparr>db := d,
                   logs := logs w @ [LogError ''Error al obtener usuario por telegram_id: {e}'' OperationalError]\<rparr>))"

definition is_active :: "User \<Rightarrow> bool" where
  "is_active u = (status u = ''active'')"

text \<open>
  The loop of \<^verbatim>\<open>_initialize_from_db\<close> over the fetched rows. An exception
  (a text that \<^verbatim>\<open>json.loads\<close> rejects, a number that is no state, a fault of the
  store at the \<^verbatim>\<open>DELETE\<close>) leaves the loop; the rows after it are not visited.
  \<open>loads\<close> is \<^verbatim>\<open>json.loads\<close>.
\<close>

fun restore_rows ::
  "(string \<Rightarrow> (string \<rightharpoonup> 'v) option) \<Rightarrow> user_state_row list \<Rightarrow> 'v world \<Rightarrow> error option \<times> 'v world" where
  "restore_rows loads [] w = (None, w)"
| "restore_rows loads (row # rows) w =
     (case (if falsy (state_data row) then Some Map.empty else loads (the (state_data row))) of
        None \<Rightarrow> (Some (ValueError ''JSONDecodeError''), w)
      | Some sdata \<Rightarrow>
          (case get_by_telegram_id (telegram_id row) w of
             (db_user, w1) \<Rightarrow>
               (if db_user \<noteq> None \<and> is_active (the db_user) then
                  (case State_of (state_enum row) of
                     Inl e \<Rightarrow> (Some e, w1)
                   | Inr st \<Rightarrow>
                       restore_rows loads rows
                         (w1\<lparr>conversations :=
                               (conversations w1)(telegram_id row \<mapsto> \<lparr>state = st, data = sdata\<rparr>),
                             logs := logs w1 @ [LogDebug ''Estado restaurado para usuario {user_id}: {State(state_enum).name}'']\<rparr>))
                else
                  (let w2 = w1\<lparr>logs := logs w1 @
                              [LogInfo (if db_user \<noteq> None
                                        then ''Usuario {user_id} encontrado pero no activo (estado={db_user.status}). No se restaura estado.''
                                        else ''Usuario {user_id} no encontrado en la base de datos. Eliminando su estado.'')]\<rparr>
                   in (case execute (db w2) of
                         (False, d) \<Rightarrow> (Some OperationalError, w2\<lparr>db := d\<rparr>)
                       | (True, d) \<Rightarrow>
                           restore_rows loads rows
                             (w2\<lparr>db := d\<lparr>user_states :=
                                   map_option (filter (\<lambda>r. telegram_id r \<noteq> telegram_id row))
                                     (user_states d)\<rparr>\<rparr>))))))"

text \<open>
  The body of the \<^verbatim>\<open>try\<close> block of \<^verbatim>\<open>_initialize_from_db\<close>: the table is looked
  for, created when it is not there, read and restored otherwise.
\<close>

definition initialize_from_db_try ::
  "(string \<Rightarrow> (string \<rightharpoonup> 'v) option) \<Rightarrow> 'v world \<Rightarrow> error option \<times> 'v world" where
  "initialize_from_db_try loads w =
     (case execute (db w) of
        (False, d) \<Rightarrow> (Some OperationalError, w\<lparr>db := d\<rparr>)
      | (True, d) \<Rightarrow>
          (case user_states d of
             None \<Rightarrow>
               (case execute d of
                  (False, d') \<Rightarrow> (Some OperationalError, w\<lparr>db := d'\<rparr>)
                | (True, d') \<Rightarrow>
                    (None, w\<lparr>db := d'\<lparr>user_states := Some []\<rparr>,
                             logs := logs w @ [LogInfo ''Tabla user_states creada correctamente'']\<rparr>))
           | Some rows \<Rightarrow>
               (case execute d of
                  (False, d') \<Rightarrow> (Some OperationalError, w\<lparr>db := d'\<rparr>)
                | (True, d') \<Rightarrow>
                    (if rows \<noteq> [] then
                       (case restore_rows loads rows (w\<lparr>db := d'\<rparr>) of
                          (Some e, w') \<Rightarrow> (Some e, w')
                        | (None, w') \<Rightarrow>
                            (None, w'\<lparr>logs := logs w' @ [LogInfo ''Estados cargados desde la base de datos: {len(self.conversations)}'']\<rparr>))
                     else
                       (None, w\<lparr>db := d',
                                logs := logs w @
                                  [LogInfo ''No se encontraron estados guardados en la base de datos'']\<rparr>)))))"

text \<open>
  \<^verbatim>\<open>StateManager.__init__\<close> with \<^verbatim>\<open>_initialize_from_db\<close>: the table of
  conversations starts empty, and an exception of the reload is logged.
\<close>

definition initialize_from_db ::
  "(string \<Rightarrow> (string \<rightharpoonup> 'v) option) \<Rightarrow> database \<Rightarrow> log_entry list \<Rightarrow> 'v world" where
  "initialize_from_db loads d lg =
     (case initialize_from_db_try loads \<lparr>conversations = Map.empty, db = d, logs = lg\<rparr> of
        (None, w') \<Rightarrow> w'
      | (Some e, w') \<Rightarrow>
          w'\<lparr>logs := logs w' @ [LogError ''Error al inicializar estados desde la base de datos: {e}'' e]\<rparr>)"

text \<open>
  What the reload is judged by: whether the table of users has the user as
  active, and which users have a row in the table of states.
\<close>

definition active_user :: "database \<Rightarrow> int \<Rightarrow> bool" where
  "active_user d u = (case users d u of None \<Rightarrow> False | Some usr \<Rightarrow> is_active usr)"

definition stored_users :: "database \<Rightarrow> int set" where
  "stored_users d = (case user_states d of None \<Rightarrow> {} | Some rows \<Rightarrow> telegram_id ` set rows)"

text \<open>
  A row as \<^verbatim>\<open>_save_to_db\<close> writes it: its number is the value of a state, and
  its text, if it has one, is one that \<^verbatim>\<open>json.loads\<close> accepts.
\<close>

definition well_formed_row :: "(string \<Rightarrow> (string \<rightharpoonup> 'v) option) \<Rightarrow> user_state_row \<Rightarrow> bool" where
  "well_formed_row loads r =
     ((falsy (state_data r) \<or> loads (the (state_data r)) \<noteq> None) \<and>
      state_enum r \<in> set (map state_value all_states))"

definition stored_rows :: "database \<Rightarrow> user_state_row list" where
  "stored_rows d = (case user_states d of None \<Rightarrow> [] | Some rows \<Rightarrow> rows)"

section \<open>The commit of the custom placeholders (models and core/handlers.py)\<close>

text \<open>
  \<^verbatim>\<open>CustomPlaceholder.create\<close>: the \<^verbatim>\<open>INSERT\<close>, which the store refuses when
  the site already has a placeholder of that name
  (\<^verbatim>\<open>UNIQUE (site_id, placeholder_name)\<close>), the commit, and the \<^verbatim>\<open>SELECT\<close> that
  reads the new row back. Any exception is logged and \<^verbatim>\<open>None\<close> returned; a row
  that was committed before the exception stays.
\<close>

definition create :: "CustomPlaceholder \<Rightarrow> 'v world \<Rightarrow> CustomPlaceholder option \<times> 'v world" where
  "create pdata w =
     (case execute (db w) of
        (False, d) \<Rightarrow>
          (None, w\<lparr>db := d,
                   logs := logs w @ [LogError ''Error al crear placeholder personalizado: {e}'' OperationalError]\<rparr>)
      | (True, d) \<Rightarrow>
          (if filter (\<lambda>r. site_id r = site_id pdata \<and> placeholder_name r = placeholder_name pdata)
                (custom_placeholders d) \<noteq> []
           then (None, w\<lparr>db := d,
                          logs := logs w @ [LogError ''Error al crear placeholder personalizado: {e}'' IntegrityError]\<rparr>)
           else
             (let placeholder_id = Suc (lastrowid d);
                  d1 = d\<lparr>custom_placeholders :=
                          custom_placeholders d @ [pdata\<lparr>row_id := Some placeholder_id\<rparr>],
                        lastrowid := placeholder_id\<rparr>
              in (case execute d1 of
                    (False, d2) \<Rightarrow>
                      (None, w\<lparr>db := d2,
                               logs := logs w @
                                 [LogError ''Error al crear placeholder personalizado: {e}'' OperationalError]\<rparr>)
                  | (True, d2) \<Rightarrow>
                      (List.find (\<lambda>r. row_id r = Some placeholder_id) (custom_placeholders d2),
                       w\<lparr>db := d2\<rparr>)))))"

text \<open>
  \<^verbatim>\<open>Site.add_custom_placeholder\<close>: the delimiters are taken off the name
  (\<^verbatim>\<open>placeholder_name[2:-2]\<close>) and the record is created. The cache of the site
  object is not modelled.
\<close>

definition add_custom_placeholder ::
  "Site \<Rightarrow> string \<Rightarrow> string \<Rightarrow> string \<Rightarrow> string option \<Rightarrow> 'v world
     \<Rightarrow> CustomPlaceholder option \<times> 'v world" where
  "add_custom_placeholder self pname dname ptype opts w =
     create
       \<lparr>row_id = None, site_id = site_pk self,
        placeholder_name =
          (if startswith pname ''{{'' \<and> endswith pname ''}}''
           then drop 2 (take (length pname - 2) pname) else pname),
        display_name = dname, placeholder_type = ptype, options = opts\<rparr>
       w"

text \<open>\<^verbatim>\<open>Site.get_by_user_id\<close>: one query; an exception is logged and no site returned.\<close>

definition get_by_user_id :: "nat \<Rightarrow> 'v world \<Rightarrow> Site list \<times> 'v world" where
  "get_by_user_id uid w =
     (case execute (db w) of
        (True, d) \<Rightarrow> (filter (\<lambda>s. owner s = uid) (sites d), w\<lparr>db := d\<rparr>)
      | (False, d) \<Rightarrow>
          ([], w\<lparr>db := d,
                 logs := logs w @ [LogError ''Error al obtener sitios por user_id: {e}'' OperationalError]\<rparr>))"

text \<open>A record of the draft list \<^verbatim>\<open>placeholder_configs\<close>.\<close>

record placeholder_config =
  config_placeholder_name :: string
  config_display_name :: string
  config_placeholder_type :: string
  config_options :: "string option"

text \<open>
  The first step of the commit: the \<^verbatim>\<open>DELETE\<close> of the site's custom
  placeholders, in its own \<^verbatim>\<open>try\<close>; a fault is logged and the commit goes on.
\<close>

definition delete_site_placeholders :: "Site \<Rightarrow> 'v world \<Rightarrow> 'v world" where
  "delete_site_placeholders site w =
     (case execute (db w) of
        (True, d) \<Rightarrow>
          w\<lparr>db := d\<lparr>custom_placeholders :=
                filter (\<lambda>r. site_id r \<noteq> site_pk site) (custom_placeholders d)\<rparr>\<rparr>
      | (False, d) \<Rightarrow>
          w\<lparr>db := d,
            logs := logs w @ [LogError ''Error al limpiar placeholders existentes: {e}'' OperationalError]\<rparr>)"

text \<open>
  The loop over the draft list, with its counter \<^verbatim>\<open>success_count\<close>;
  \<open>add_config\<close> is the call of its body. The creation returns \<^verbatim>\<open>None\<close> on
  every failure, so the \<^verbatim>\<open>except\<close> of the loop body is never entered.
\<close>

definition add_config ::
  "Site \<Rightarrow> placeholder_config \<Rightarrow> 'v world \<Rightarrow> CustomPlaceholder option \<times> 'v world" where
  "add_config site config w =
     add_custom_placeholder site (config_placeholder_name config)
       (config_display_name config) (config_placeholder_type config)
       (config_options config) w"

fun create_all ::
  "Site \<Rightarrow> placeholder_config list \<Rightarrow> nat \<Rightarrow> 'v world \<Rightarrow> nat \<times> 'v world" where
  "create_all site [] success_count w = (success_count, w)"
| "create_all site (config # configs) success_count w =
     (case add_config site config w of
        (new_placeholder, w') \<Rightarrow>
          create_all site configs
            (if new_placeholder \<noteq> None then success_count + 1 else success_count) w')"

datatype reply =
    Configured nat nat
  | NothingConfigured
  | AskPlaceholder string

text \<open>
  \<^verbatim>\<open>configure_next_custom_placeholder\<close>. Its three scratch entries
  (\<^verbatim>\<open>custom_placeholders\<close>, \<^verbatim>\<open>current_placeholder_index\<close>,
  \<^verbatim>\<open>placeholder_configs\<close>) are arguments, with the types that the upload and the
  configuration steps give them; an entry that is not there is \<open>None\<close>. The
  result is the message shown and the world after the call. The message
  \<open>Configured m n\<close> stands for "Se han configurado m de n placeholders
  personalizados", \<open>NothingConfigured\<close> for "No se han configurado placeholders
  personalizados".
\<close>

definition configure_next_custom_placeholder ::
  "((string \<rightharpoonup> 'v) \<Rightarrow> string option) \<Rightarrow> int \<Rightarrow> string list option \<Rightarrow> nat
     \<Rightarrow> placeholder_config list option \<Rightarrow> 'v world \<Rightarrow> reply \<times> 'v world" where
  "configure_next_custom_placeholder dumps user_id custom_phs current_index configs_entry w =
     (if custom_phs = None \<or> the custom_phs = [] \<or> current_index \<ge> length (the custom_phs) then
        (let placeholder_configs = (case configs_entry of None \<Rightarrow> [] | Some cs \<Rightarrow> cs)
         in (case get_by_telegram_id user_id w of
               (db_user, w1) \<Rightarrow>
                 (case (case db_user of
                          None \<Rightarrow> ([], w1)
                        | Some u \<Rightarrow> get_by_user_id (user_pk u) w1) of
                    (user_sites, w2) \<Rightarrow>
                      (case user_sites of
                         site # _ \<Rightarrow>
                           (if placeholder_configs \<noteq> [] then
                              (case create_all site placeholder_configs 0
                                      (delete_site_placeholders site w2) of
                                 (success_count, w3) \<Rightarrow>
                                   (Configured success_count (length placeholder_configs),
                                    set_state dumps user_id IDLE w3))
                            else (NothingConfigured, set_state dumps user_id IDLE w2))
                       | [] \<Rightarrow> (NothingConfigured, set_state dumps user_id IDLE w2)))))
      else (AskPlaceholder (the custom_phs ! current_index), w))"

section \<open>Concrete inputs for the examples\<close>

text \<open>
  A template with a style rule and three placeholders, and the template that
  holds the eight names which the upload handler lists as compulsory.
\<close>

definition styled_template :: "segment list" where
  "styled_template =
     [Literal ''h1 {margin: 0} '', Placeholder ''titulo'', Literal '' por '',
      Placeholder ''autor'', Literal '', '', Placeholder ''fecha'']"

definition eight_names_template :: string where
  "eight_names_template =
     ''{{TITLE}}{{META_DESCRIPTION}}{{FEATURE_IMAGE}}{{PUBLISHED_TIME}}{{CATEGORY}}{{SITE_URL}}{{ARTICLE_URL}}{{CONTENT}}''"


text \<open>
  A store with three saved conversations, of an active user (1), an inactive
  user (2) and a user that the table of users does not know (3); the active user
  owns site 4, which has one custom placeholder.
\<close>

definition example_db :: database where
  "example_db =
     \<lparr>faults = [],
      user_states = Some
        [\<lparr>telegram_id = 1, state_enum = 5, state_data = Some ''{}''\<rparr>,
         \<lparr>telegram_id = 2, state_enum = 3, state_data = None\<rparr>,
         \<lparr>telegram_id = 3, state_enum = 2, state_data = Some ''{}''\<rparr>],
      users = [1 \<mapsto> \<lparr>user_pk = 10, status = ''active''\<rparr>,
               2 \<mapsto> \<lparr>user_pk = 11, status = ''inactive''\<rparr>],
      sites = [\<lparr>site_pk = 4, owner = 10\<rparr>],
      custom_placeholders =
        [\<lparr>row_id = Some 1, site_id = 4, placeholder_name = ''AUTHOR'', display_name = ''Autor'',
          placeholder_type = ''texto'', options = None\<rparr>],
      lastrowid = 1\<rparr>"

text \<open>
  The same store with a first row whose number is not the value of any state.
\<close>

definition bad_row_db :: database where
  "bad_row_db =
     example_db\<lparr>user_states := Some
        [\<lparr>telegram_id = 1, state_enum = 99, state_data = Some ''{}''\<rparr>,
         \<lparr>telegram_id = 2, state_enum = 3, state_data = None\<rparr>,
         \<lparr>telegram_id = 3, state_enum = 2, state_data = Some ''{}''\<rparr>]\<rparr>"

text \<open>
  The world of user 1 in the middle of a template upload, with the store about
  to fail at its next operation.
\<close>

definition store_down_world :: "string world" where
  "store_down_world =
     \<lparr>conversations = [1 \<mapsto> \<lparr>state = UPLOADING_TEMPLATE, data = Map.empty\<rparr>],
      db = example_db\<lparr>faults := [True]\<rparr>,
      logs = []\<rparr>"

text \<open>
  The world of user 1 at the end of the configuration of three unknown
  placeholders, and a draft list in which the second record repeats the name of
  the first.
\<close>

definition configuring_world :: "string world" where
  "configuring_world =
     \<lparr>conversations = [1 \<mapsto> \<lparr>state = CONFIGURING_CUSTOM_PLACEHOLDER, data = Map.empty\<rparr>],
      db = example_db, logs = []\<rparr>"

definition example_drafts :: "placeholder_config list" where
  "example_drafts =
     [\<lparr>config_placeholder_name = ''{{FOO}}'', config_display_name = ''Foo label'',
       config_placeholder_type = ''texto'', config_options = None\<rparr>,
      \<lparr>config_placeholder_name = ''FOO'', config_display_name = ''Foo again'',
       config_placeholder_type = ''numero'', config_options = None\<rparr>,
      \<lparr>config_placeholder_name = ''{{BAR}}'', config_display_name = ''Bar label'',
       config_placeholder_type = ''desplegable'', config_options = Some ''a,b''\<rparr>]"

section \<open>Occurrences of delimited names in a text\<close>

lemma startswith_prefix: "startswith s p = prefix p s"
  by (auto simp: startswith_def prefix_def) (metis append_eq_conv_conj)

lemma brace_free_name_determined:
  "brace_free m \<Longrightarrow> brace_free n \<Longrightarrow> prefix (m @ ''}}'') (n @ ''}}'' @ b) \<Longrightarrow> m = n"
proof (induction m arbitrary: n)
  case Nil
  then show ?case by (cases n) (auto simp: brace_free_def)
next
  case (Cons c m)
  then show ?case by (cases n) (auto simp: brace_free_def)
qed

lemma drop_in_body:
  assumes "i < length xs"
  shows "\<exists>c r. drop i (xs @ b) = c # r \<and> c \<in> set xs"
proof -
  from assms have "drop i (xs @ b) = (xs ! i) # drop (Suc i) xs @ b"
    by (simp add: Cons_nth_drop_Suc)
  with assms show ?thesis by auto
qed

lemma token_not_inside:
  assumes m: "brace_free m" and n: "brace_free n" and neq: "m \<noteq> n"
    and i: "i < length (''{{'' @ n @ ''}}'')"
  shows "\<not> prefix (''{{'' @ m @ ''}}'') (drop i ((''{{'' @ n @ ''}}'') @ b))"
proof (cases i)
  case 0
  with brace_free_name_determined [OF m n, of b] neq show ?thesis by auto
next
  case (Suc j)
  show ?thesis
  proof (cases j)
    case 0
    with Suc n show ?thesis by (cases n) (auto simp: brace_free_def)
  next
    case (Suc k)
    with \<open>i = Suc j\<close> i have k: "k < length (n @ ''}}'')" by simp
    from drop_in_body [OF k, of b] obtain c r where
      d: "drop k ((n @ ''}}'') @ b) = c # r" and c: "c \<in> set (n @ ''}}'')" by blast
    from c n have "c \<noteq> CHR ''{''" by (auto simp: brace_free_def)
    with d Suc \<open>i = Suc j\<close> show ?thesis by simp
  qed
qed

lemma prefix_overlap_char:
  assumes "prefix p (a @ s)" and "length a < length p"
  shows "s \<noteq> [] \<and> p ! length a = hd s"
proof -
  from assms(1) obtain z where z: "a @ s = p @ z" by (auto simp: prefix_def)
  from assms(2) z have "s \<noteq> []" by (metis append_Nil2 length_append less_irrefl_nat trans_less_add1 append_eq_append_conv)
  moreover have "(a @ s) ! length a = p ! length a" using z assms(2) by (simp add: nth_append)
  ultimately show ?thesis by (simp add: nth_append hd_conv_nth)
qed

lemma token_not_into:
  assumes m: "brace_free m" and a: "a \<noteq> []"
    and pre: "prefix (''{{'' @ m @ ''}}'') (a @ (''{{'' @ n @ ''}}'') @ b)"
  shows "length (''{{'' @ m @ ''}}'') \<le> length a"
proof (rule ccontr)
  assume "\<not> length (''{{'' @ m @ ''}}'') \<le> length a"
  then have lt: "length a < length (''{{'' @ m @ ''}}'')" by simp
  from prefix_overlap_char [OF pre lt]
  have ch: "(''{{'' @ m @ ''}}'') ! length a = CHR ''{''" by simp
  show False
  proof (cases "length a")
    case 0
    with a show False by simp
  next
    case (Suc j)
    show False
    proof (cases j)
      case 0
      with Suc obtain x where ax: "a = [x]" by (cases a) auto
      with pre m show False by (cases m) (auto simp: brace_free_def)
    next
      case (Suc k)
      with \<open>length a = Suc j\<close> lt have k: "k < length (m @ ''}}'')" by simp
      from ch \<open>length a = Suc j\<close> Suc have "(m @ ''}}'') ! k = CHR ''{''" by simp
      with k have "CHR ''{'' \<in> set (m @ ''}}'')" by (metis nth_mem)
      with m show False by (auto simp: brace_free_def)
    qed
  qed
qed

lemma contains_iff: "contains s p \<longleftrightarrow> (\<exists>pre post. s = pre @ p @ post)"
proof (induction s)
  case Nil
  then show ?case by auto
next
  case (Cons c s)
  show ?case
  proof
    assume "contains (c # s) p"
    then consider "prefix p (c # s)" | "contains s p" by (auto simp: startswith_prefix)
    then show "\<exists>pre post. c # s = pre @ p @ post"
    proof cases
      case 1
      then obtain z where "c # s = p @ z" by (auto simp: prefix_def)
      then have "c # s = [] @ p @ z" by simp
      then show ?thesis by blast
    next
      case 2
      with Cons obtain pre post where "s = pre @ p @ post" by blast
      then have "c # s = (c # pre) @ p @ post" by simp
      then show ?thesis by blast
    qed
  next
    assume "\<exists>pre post. c # s = pre @ p @ post"
    then obtain pre post where e: "c # s = pre @ p @ post" by blast
    show "contains (c # s) p"
    proof (cases pre)
      case Nil
      with e have "prefix p (c # s)" by (simp add: prefix_def)
      then show ?thesis by (simp add: startswith_prefix)
    next
      case (Cons d pre')
      with e have "s = pre' @ p @ post" by simp
      with Cons.IH have "contains s p" by blast
      then show ?thesis by simp
    qed
  qed
qed

section \<open>The builtin catalog\<close>

text \<open>
  The three lists of the upload handler are pairwise disjoint and cover the
  fifteen names of the table: eight compulsory names, five optional ones and the
  two that the system generates.
\<close>

lemma upload_lists_partition_catalog:
  "length PLACEHOLDERS = 15 \<and>
   distinct (map fst PLACEHOLDERS) \<and>
   set (map fst PLACEHOLDERS) =
     set required_placeholders \<union> set optional_placeholders \<union> set auto_placeholders \<and>
   distinct (required_placeholders @ optional_placeholders @ auto_placeholders) \<and>
   length required_placeholders = 8 \<and>
   length optional_placeholders = 5 \<and>
   length auto_placeholders = 2"
  unfolding PLACEHOLDERS_def required_placeholders_def optional_placeholders_def
    auto_placeholders_def
  by (simp add: insert_commute)

text \<open>
  Claim C9. The catalog should hold eight compulsory fields, five optional ones
  and two generated ones, the site name and the slug, as the lists and the
  comments of the upload handler have it. The table has no generated class: it
  flags the site name and the slug as required, as it does the eight compulsory
  names, so that ten of its entries are required and five are not. The scanner,
  which reads the flag, files the two generated names that occur in a template
  with the compulsory ones, where the upload handler files them as generated;
  and the handler accepts the template of the eight compulsory names, in which
  two names that the table requires do not occur.
\<close>

theorem catalog_flags_generated_names_as_required:
  "map fst (filter (\<lambda>p. required (snd p)) PLACEHOLDERS) =
     [''{{TITLE}}'', ''{{SITE_NAME}}'', ''{{META_DESCRIPTION}}'', ''{{FEATURE_IMAGE}}'',
      ''{{PUBLISHED_TIME}}'', ''{{CATEGORY}}'', ''{{SITE_URL}}'', ''{{ARTICLE_URL}}'',
      ''{{CONTENT}}'', ''{{SLUG}}''] \<and>
   length (filter (\<lambda>p. required (snd p)) PLACEHOLDERS) = 10 \<and>
   map fst (filter (\<lambda>p. \<not> required (snd p)) PLACEHOLDERS) = optional_placeholders \<and>
   length (filter (\<lambda>p. \<not> required (snd p)) PLACEHOLDERS) = 5 \<and>
   length required_placeholders = 8 \<and>
   auto_placeholders = [''{{SITE_NAME}}'', ''{{SLUG}}''] \<and>
   required_found (find_placeholders_in_template ''{{SITE_NAME}}{{SLUG}}'') =
     [''{{SITE_NAME}}'', ''{{SLUG}}''] \<and>
   present_auto (check_upload ''{{SITE_NAME}}{{SLUG}}'') = [''{{SITE_NAME}}'', ''{{SLUG}}''] \<and>
   missing_required (check_upload eight_names_template) = [] \<and>
   filter (\<lambda>n. \<not> contains eight_names_template n)
     (map fst (filter (\<lambda>p. required (snd p)) PLACEHOLDERS)) = [''{{SITE_NAME}}'', ''{{SLUG}}'']"
  by code_simp

section \<open>The scanner\<close>

text \<open>
  The scan of \<^verbatim>\<open>find_placeholders_in_template\<close> finds a name exactly when the
  name is made of capital letters and underscores and occurs, between its
  delimiters, in the template. Hence \<^verbatim>\<open>missing\<close> is the list of all catalog
  names that do not occur in the template, required or not, and \<^verbatim>\<open>unknown\<close>
  holds the names of that form that occur and are not in the catalog.
\<close>

lemma takeWhile_all_prefix: "list_all P xs \<Longrightarrow> takeWhile P (xs @ ys) = xs @ takeWhile P ys"
  by (induction xs) auto

lemma dropWhile_all_prefix': "list_all P xs \<Longrightarrow> dropWhile P (xs @ ys) = dropWhile P ys"
  by (induction xs) auto

lemma match_class_sound:
  assumes "match_class cls s = Some (name, rest)"
  shows "s = ''{{'' @ name @ ''}}'' @ rest \<and> name \<noteq> [] \<and> list_all cls name"
proof -
  let ?body = "drop 2 s"
  from assms have sw: "prefix ''{{'' s" and nm: "name = takeWhile cls ?body"
    and ne: "name \<noteq> []" and cl: "prefix ''}}'' (dropWhile cls ?body)"
    and rest: "rest = drop 2 (dropWhile cls ?body)"
    by (auto simp: match_class_def Let_def startswith_prefix split: if_splits)
  from sw have s: "s = ''{{'' @ ?body" by (auto simp: prefix_def)
  from cl have d: "dropWhile cls ?body = ''}}'' @ rest" by (auto simp: prefix_def rest)
  have "?body = name @ dropWhile cls ?body" by (simp add: nm)
  with d have "?body = name @ ''}}'' @ rest" by simp
  with s have "s = ''{{'' @ name @ ''}}'' @ rest" by (metis)
  moreover have "list_all cls name" unfolding nm list_all_iff by (auto dest: set_takeWhileD)
  ultimately show ?thesis using ne by simp
qed

lemma match_class_complete:
  assumes "list_all cls n" and "n \<noteq> []" and "\<not> cls CHR ''}''"
  shows "match_class cls (''{{'' @ n @ ''}}'' @ b) = Some (n, b)"
proof -
  have t: "takeWhile cls (n @ ''}}'' @ b) = n"
    using assms by (simp add: takeWhile_all_prefix)
  have d: "dropWhile cls (n @ ''}}'' @ b) = ''}}'' @ b"
    using assms by (simp add: dropWhile_all_prefix')
  show ?thesis using assms(2) t d by (simp add: match_class_def startswith_def Let_def)
qed

lemma findall_class_sound:
  "n \<in> set (findall_class cls t) \<Longrightarrow>
     n \<noteq> [] \<and> list_all cls n \<and> contains t (''{{'' @ n @ ''}}'')"
proof (induction cls t rule: findall_class.induct)
  case (1 cls)
  then show ?case by simp
next
  case (2 cls c cs)
  show ?case
  proof (cases "match_class cls (c # cs)")
    case None
    with 2 have "n \<noteq> [] \<and> list_all cls n \<and> contains cs (''{{'' @ n @ ''}}'')" by simp
    then show ?thesis by simp
  next
    case (Some mr)
    obtain m rest where mr: "mr = (m, rest)" by (cases mr)
    from match_class_sound [of cls "c # cs" m rest] Some mr
    have s: "c # cs = ''{{'' @ m @ ''}}'' @ rest" and mne: "m \<noteq> []" and mcl: "list_all cls m"
      by simp_all
    from "2.prems" Some mr have "n = m \<or> n \<in> set (findall_class cls rest)" by simp
    then show ?thesis
    proof
      assume "n = m"
      moreover from s have "c # cs = [] @ (''{{'' @ m @ ''}}'') @ rest" by simp
      then have "contains (c # cs) (''{{'' @ m @ ''}}'')" unfolding contains_iff by blast
      ultimately show ?thesis using mne mcl by simp
    next
      assume "n \<in> set (findall_class cls rest)"
      with "2.IH"(2) [OF Some mr [symmetric]] have
        r: "n \<noteq> [] \<and> list_all cls n \<and> contains rest (''{{'' @ n @ ''}}'')" by simp
      then obtain pre post where "rest = pre @ (''{{'' @ n @ ''}}'') @ post"
        unfolding contains_iff by blast
      with s have "c # cs = (''{{'' @ m @ ''}}'' @ pre) @ (''{{'' @ n @ ''}}'') @ post" by simp
      then have "contains (c # cs) (''{{'' @ n @ ''}}'')" unfolding contains_iff by blast
      with r show ?thesis by simp
    qed
  qed
qed

lemma findall_class_complete:
  assumes cls: "\<And>c. cls c \<Longrightarrow> c \<noteq> CHR ''{'' \<and> c \<noteq> CHR ''}''"
    and n: "list_all cls n" "n \<noteq> []"
  shows "n \<in> set (findall_class cls (a @ (''{{'' @ n @ ''}}'') @ b))"
proof (induction a rule: length_induct)
  case (1 a)
  have notR: "\<not> cls CHR ''}''" using cls by blast
  show ?case
  proof (cases a)
    case Nil
    have "match_class cls (''{{'' @ n @ ''}}'' @ b) = Some (n, b)"
      by (rule match_class_complete [OF n notR])
    with Nil show ?thesis by simp
  next
    case (Cons c a')
    show ?thesis
    proof (cases "match_class cls (a @ (''{{'' @ n @ ''}}'') @ b)")
      case None
      have "length a' < length a" using Cons by simp
      with "1.IH" have "n \<in> set (findall_class cls (a' @ (''{{'' @ n @ ''}}'') @ b))" by blast
      with None Cons show ?thesis by simp
    next
      case (Some mr)
      obtain m rest where mr: "mr = (m, rest)" by (cases mr)
      from match_class_sound [of cls "a @ (''{{'' @ n @ ''}}'') @ b" m rest] Some mr
      have s: "a @ (''{{'' @ n @ ''}}'') @ b = ''{{'' @ m @ ''}}'' @ rest" and mcl: "list_all cls m"
        by simp_all
      from mcl cls have bf: "brace_free m" by (auto simp: brace_free_def list_all_iff)
      from s have pre: "prefix (''{{'' @ m @ ''}}'') (a @ (''{{'' @ n @ ''}}'') @ b)"
        by (simp add: prefix_def)
      from token_not_into [OF bf _ pre] Cons have le: "length (''{{'' @ m @ ''}}'') \<le> length a"
        by simp
      from s have "rest = drop (length (''{{'' @ m @ ''}}'')) (a @ (''{{'' @ n @ ''}}'') @ b)"
        by (metis append_eq_conv_conj append.assoc)
      with le have rest: "rest = drop (length (''{{'' @ m @ ''}}'')) a @ (''{{'' @ n @ ''}}'') @ b"
        by simp
      have "length (drop (length (''{{'' @ m @ ''}}'')) a) < length a" using Cons by simp
      with "1.IH" have "n \<in> set (findall_class cls rest)" unfolding rest by blast
      with Some mr Cons show ?thesis by simp
    qed
  qed
qed

lemma is_name_char_no_brace: "is_name_char c \<Longrightarrow> c \<noteq> CHR ''{'' \<and> c \<noteq> CHR ''}''"
  by (auto simp: is_name_char_def)

lemma findall_name_iff:
  "n \<in> set (findall_class is_name_char t) \<longleftrightarrow>
     n \<noteq> [] \<and> list_all is_name_char n \<and> contains t (''{{'' @ n @ ''}}'')"
proof
  assume "n \<in> set (findall_class is_name_char t)"
  then show "n \<noteq> [] \<and> list_all is_name_char n \<and> contains t (''{{'' @ n @ ''}}'')"
    by (rule findall_class_sound)
next
  assume r: "n \<noteq> [] \<and> list_all is_name_char n \<and> contains t (''{{'' @ n @ ''}}'')"
  then obtain a b where "t = a @ (''{{'' @ n @ ''}}'') @ b" unfolding contains_iff by blast
  moreover have "n \<in> set (findall_class is_name_char (a @ (''{{'' @ n @ ''}}'') @ b))"
    using r by (intro findall_class_complete is_name_char_no_brace) simp_all
  ultimately show "n \<in> set (findall_class is_name_char t)" by simp
qed

lemma found_delimited_iff:
  "''{{'' @ n @ ''}}'' \<in> set (map (\<lambda>name. ''{{'' @ name @ ''}}'') (findall_class is_name_char t)) \<longleftrightarrow>
     n \<noteq> [] \<and> list_all is_name_char n \<and> contains t (''{{'' @ n @ ''}}'')"
  by (auto simp: findall_name_iff)

lemma classify_catalog_missing:
  "missing (classify_catalog ps found res) = missing res @ filter (\<lambda>p. p \<notin> found) (map fst ps)"
  by (induction ps found res rule: classify_catalog.induct) auto

lemma classify_catalog_unknown: "unknown (classify_catalog ps found res) = unknown res"
  by (induction ps found res rule: classify_catalog.induct) auto

lemma catalog_names_delimited:
  "map fst PLACEHOLDERS =
     map (\<lambda>name. ''{{'' @ name @ ''}}'')
       [''TITLE'', ''SITE_NAME'', ''META_DESCRIPTION'', ''FEATURE_IMAGE'', ''PUBLISHED_TIME'',
        ''CATEGORY'', ''LAST_MODIFIED'', ''SITE_URL'', ''ARTICLE_URL'', ''CONTENT'',
        ''FEATURE_IMAGE_ALT'', ''READING_TIME'', ''SOURCE_LIST'', ''SLUG'', ''POST_MONTH'']"
  by (simp add: PLACEHOLDERS_def)

lemma catalog_names_well_formed:
  "list_all (\<lambda>n. n \<noteq> [] \<and> list_all is_name_char n)
       [''TITLE'', ''SITE_NAME'', ''META_DESCRIPTION'', ''FEATURE_IMAGE'', ''PUBLISHED_TIME'',
        ''CATEGORY'', ''LAST_MODIFIED'', ''SITE_URL'', ''ARTICLE_URL'', ''CONTENT'',
        ''FEATURE_IMAGE_ALT'', ''READING_TIME'', ''SOURCE_LIST'', ''SLUG'', ''POST_MONTH'']"
  by (simp add: is_name_char_def)

lemma catalog_name_found_iff:
  assumes "p \<in> set (map fst PLACEHOLDERS)"
  shows "p \<in> set (map (\<lambda>name. ''{{'' @ name @ ''}}'') (findall_class is_name_char t)) \<longleftrightarrow>
         contains t p"
proof -
  let ?names = "[''TITLE'', ''SITE_NAME'', ''META_DESCRIPTION'', ''FEATURE_IMAGE'', ''PUBLISHED_TIME'',
        ''CATEGORY'', ''LAST_MODIFIED'', ''SITE_URL'', ''ARTICLE_URL'', ''CONTENT'',
        ''FEATURE_IMAGE_ALT'', ''READING_TIME'', ''SOURCE_LIST'', ''SLUG'', ''POST_MONTH'']"
  from assms have "p \<in> (\<lambda>name. ''{{'' @ name @ ''}}'') ` set ?names"
    by (simp only: catalog_names_delimited set_map)
  then obtain n where n: "n \<in> set ?names" and p: "p = ''{{'' @ n @ ''}}''"
    by blast
  from n catalog_names_well_formed have "n \<noteq> [] \<and> list_all is_name_char n"
    unfolding list_all_iff by blast
  then show ?thesis unfolding p found_delimited_iff by simp
qed

lemma scan_missing_characterisation:
  "missing (find_placeholders_in_template t) =
     filter (\<lambda>p. \<not> contains t p) (map fst PLACEHOLDERS)"
proof -
  let ?found = "set (map (\<lambda>name. ''{{'' @ name @ ''}}'') (findall_class is_name_char t))"
  have "missing (find_placeholders_in_template t) =
      filter (\<lambda>p. p \<notin> ?found) (map fst PLACEHOLDERS)"
    by (simp add: find_placeholders_in_template_def Let_def classify_catalog_missing)
  also have "\<dots> = filter (\<lambda>p. \<not> contains t p) (map fst PLACEHOLDERS)"
  proof (rule filter_cong [OF refl])
    fix p assume "p \<in> set (map fst PLACEHOLDERS)"
    then show "(p \<notin> ?found) = (\<not> contains t p)"
      using catalog_name_found_iff [of p t] by blast
  qed
  finally show ?thesis .
qed

lemma scan_unknown_characterisation:
  "set (unknown (find_placeholders_in_template t)) =
     {p. \<exists>n. p = ''{{'' @ n @ ''}}'' \<and> n \<noteq> [] \<and> list_all is_name_char n \<and>
              contains t p \<and> p \<notin> set (map fst PLACEHOLDERS)}"
proof -
  let ?found = "set (map (\<lambda>name. ''{{'' @ name @ ''}}'') (findall_class is_name_char t))"
  have u: "set (unknown (find_placeholders_in_template t)) =
      {p \<in> ?found. p \<notin> set (map fst PLACEHOLDERS)}"
    by (auto simp: find_placeholders_in_template_def Let_def classify_catalog_unknown)
  have f: "?found = {p. \<exists>n. p = ''{{'' @ n @ ''}}'' \<and> n \<noteq> [] \<and> list_all is_name_char n \<and> contains t p}"
    by (auto simp: findall_name_iff)
  show ?thesis unfolding u f by blast
qed

text \<open>
  Claim C2. The list \<^verbatim>\<open>missing\<close> of the scan should hold the required builtin
  names that the template lacks and nothing else, so that it is empty for a
  template with every required name. The scanner puts every catalog name that
  it did not find into the list, whatever its flag: for a template made of the
  ten names flagged as required, \<^verbatim>\<open>missing\<close> is the list of the five optional
  names, while the check of the upload handler, on the same template, misses
  nothing.
\<close>

theorem scan_missing_holds_optional_names:
  "missing (find_placeholders_in_template
     (''{{TITLE}}{{SITE_NAME}}{{META_DESCRIPTION}}{{FEATURE_IMAGE}}{{PUBLISHED_TIME}}'' @
      ''{{CATEGORY}}{{SITE_URL}}{{ARTICLE_URL}}{{CONTENT}}{{SLUG}}''))
     = [''{{LAST_MODIFIED}}'', ''{{FEATURE_IMAGE_ALT}}'', ''{{READING_TIME}}'',
        ''{{SOURCE_LIST}}'', ''{{POST_MONTH}}''] \<and>
   missing_required (check_upload
     (''{{TITLE}}{{SITE_NAME}}{{META_DESCRIPTION}}{{FEATURE_IMAGE}}{{PUBLISHED_TIME}}'' @
      ''{{CATEGORY}}{{SITE_URL}}{{ARTICLE_URL}}{{CONTENT}}{{SLUG}}'')) = []"
  by code_simp

text \<open>
  Claim C6. A placeholder whose name is any printable token without braces
  should be reported as unknown when it is not in the catalog. The scanner's
  expression takes capital letters and underscores only: the lower-case
  placeholder of the template below is not in the catalog and occurs in the
  template, yet the scan reports no unknown name, while the upload handler and
  \<^verbatim>\<open>detect_placeholders\<close> both find it.
\<close>

theorem scan_overlooks_lower_case_name:
  "unknown (find_placeholders_in_template ''<h1>{{autor}}</h1>'') = [] \<and>
   contains ''<h1>{{autor}}</h1>'' ''{{autor}}'' \<and>
   ''{{autor}}'' \<notin> set (map fst PLACEHOLDERS) \<and>
   unknown_placeholders (check_upload ''<h1>{{autor}}</h1>'') = [''{{autor}}''] \<and>
   detect_placeholders ''<h1>{{autor}}</h1>'' = [''autor'']"
  by code_simp

section \<open>The renderers\<close>

text \<open>
  \<^verbatim>\<open>fill_template\<close> puts the text of a value into the result as it is,
  whatever the value contains.
\<close>

lemma lazy_group_name:
  "CHR ''}'' \<notin> set n \<Longrightarrow> CHR 0x0A \<notin> set n \<Longrightarrow> lazy_group (n @ ''}}'' @ rest) = Some (n, rest)"
  by (induction n) (auto simp: startswith_def)

lemma fill_template_substitutes_verbatim:
  assumes "CHR ''}'' \<notin> set n" and "CHR 0x0A \<notin> set n" and "vals n = Some v"
  shows "fill_template (''{{'' @ n @ ''}}'') vals = Inr (py_str v)"
proof -
  have "match_placeholder (''{{'' @ n @ ''}}'') = Some (n, [])"
    using lazy_group_name [OF assms(1,2), of "[]"] by (simp add: match_placeholder_def startswith_def)
  then have scan: "pattern_scan (''{{'' @ n @ ''}}'') = [Inr n]" by simp
  then have "detect_placeholders (''{{'' @ n @ ''}}'') = [n]" by (simp add: detect_placeholders_def)
  with scan assms(3) show ?thesis
    by (simp add: fill_template_def Let_def replacer_def dom_def)
qed

text \<open>
  Claim C7. Rendering should be one pass over the template, a substituted value
  never being searched for placeholders again. \<^verbatim>\<open>fill_template\<close> does so;
  \<^verbatim>\<open>replace_placeholders\<close> replaces key after key in the text that the earlier
  keys produced: with the value of \<^verbatim>\<open>A\<close> holding the placeholder of the later
  key \<^verbatim>\<open>B\<close>, that placeholder is substituted again.
\<close>

theorem replace_placeholders_rescans_value:
  "replace_placeholders ''<p>{{A}}</p>'' [(''A'', PyStr ''{{B}}''), (''B'', PyStr ''z'')]
     = ''<p>z</p>'' \<and>
   fill_template ''<p>{{A}}</p>'' [''A'' \<mapsto> PyStr ''{{B}}'', ''B'' \<mapsto> PyStr ''z'']
     = Inr ''<p>{{B}}</p>''"
  by (simp add: search_text_def startswith_def fill_template_def detect_placeholders_def
      match_placeholder_def replacer_def)

section \<open>The failing renderer\<close>

lemma fill_template_by_detected:
  "fill_template t vals =
     (if set (detect_placeholders t) \<subseteq> dom vals
      then pattern_sub (replacer vals) (pattern_scan t)
      else Inl (ValueError (''Faltan datos para: '' @
                  join '', '' (filter (\<lambda>ph. ph \<notin> dom vals) (detect_placeholders t)))))"
proof -
  have "filter (\<lambda>ph. ph \<notin> dom vals) (detect_placeholders t) = [] \<longleftrightarrow>
      set (detect_placeholders t) \<subseteq> dom vals"
    by (auto simp: filter_empty_conv)
  then show ?thesis by (simp add: fill_template_def Let_def)
qed

lemma scan_literal:
  "\<not> contains s ''{{'' \<Longrightarrow> \<not> endswith s ''{'' \<Longrightarrow>
     pattern_scan (s @ rest) = map Inl s @ pattern_scan rest"
proof (induction s)
  case Nil
  then show ?case by simp
next
  case (Cons c s)
  from Cons.prems have ns: "\<not> startswith (c # s) ''{{''" and nc: "\<not> contains s ''{{''"
    by simp_all
  have m: "match_placeholder ((c # s) @ rest) = None"
  proof (cases s)
    case Nil
    with Cons.prems(2) have "c \<noteq> CHR ''{''" by (simp add: endswith_def)
    then show ?thesis by (simp add: match_placeholder_def startswith_def)
  next
    case (Cons d s')
    with ns show ?thesis by (auto simp: match_placeholder_def startswith_def)
  qed
  have ne: "\<not> endswith s ''{''"
  proof (cases s)
    case Nil
    then show ?thesis by (simp add: endswith_def)
  next
    case (Cons d s')
    with Cons.prems(2) show ?thesis by (simp add: endswith_def Suc_diff_le)
  qed
  from m Cons.IH [OF nc ne] show ?case by simp
qed

lemma scan_placeholder:
  assumes "CHR ''}'' \<notin> set n" and "CHR 0x0A \<notin> set n"
  shows "pattern_scan (''{{'' @ n @ ''}}'' @ rest) = Inr n # pattern_scan rest"
proof -
  have "match_placeholder (''{{'' @ n @ ''}}'' @ rest) = Some (n, rest)"
    using lazy_group_name [OF assms, of rest] by (simp add: match_placeholder_def startswith_def)
  then show ?thesis by simp
qed

lemma scan_template_text:
  "list_all plain_segment segs \<Longrightarrow>
     pattern_scan (template_text segs) =
       concat (map (\<lambda>seg. case seg of Literal s \<Rightarrow> map Inl s | Placeholder n \<Rightarrow> [Inr n]) segs)"
proof (induction segs)
  case Nil
  then show ?case by simp
next
  case (Cons seg segs)
  show ?case
  proof (cases seg)
    case (Literal s)
    with Cons show ?thesis by (simp add: scan_literal)
  next
    case (Placeholder n)
    with Cons.prems have "CHR ''}'' \<notin> set n" "CHR 0x0A \<notin> set n"
      by (simp_all add: brace_free_def)
    with Cons Placeholder show ?thesis by (simp add: scan_placeholder del: append.simps)
  qed
qed

lemma collect_literal:
  "concat (map (\<lambda>tok. case tok of Inl c \<Rightarrow> [] | Inr g \<Rightarrow> [g]) (map Inl s @ toks)) =
   concat (map (\<lambda>tok. case tok of Inl c \<Rightarrow> [] | Inr g \<Rightarrow> [g]) toks)"
  by (induction s) auto

lemma collect_segments:
  "concat (map (\<lambda>tok. case tok of Inl c \<Rightarrow> [] | Inr g \<Rightarrow> [g])
     (concat (map (\<lambda>seg. case seg of Literal s \<Rightarrow> map Inl s | Placeholder n \<Rightarrow> [Inr n]) segs)))
   = referenced segs"
proof (induction segs)
  case Nil
  then show ?case by simp
next
  case (Cons seg segs)
  then show ?case by (cases seg) (simp_all add: collect_literal del: map_append)
qed

lemma detect_template_text:
  "list_all plain_segment segs \<Longrightarrow> detect_placeholders (template_text segs) = referenced segs"
  unfolding detect_placeholders_def by (simp only: scan_template_text collect_segments)

lemma pattern_sub_literal:
  "pattern_sub f (map Inl s @ toks) =
     (case pattern_sub f toks of Inl e \<Rightarrow> Inl e | Inr out \<Rightarrow> Inr (s @ out))"
  by (induction s) (auto split: sum.splits)

lemma sub_template_text:
  "set (referenced segs) \<subseteq> dom vals \<Longrightarrow>
     pattern_sub (replacer vals)
       (concat (map (\<lambda>seg. case seg of Literal s \<Rightarrow> map Inl s | Placeholder n \<Rightarrow> [Inr n]) segs))
     = Inr (substituted vals segs)"
proof (induction segs)
  case Nil
  then show ?case by simp
next
  case (Cons seg segs)
  show ?case
  proof (cases seg)
    case (Literal s)
    with Cons show ?thesis by (simp add: pattern_sub_literal)
  next
    case (Placeholder n)
    with Cons.prems obtain v where "vals n = Some v" by auto
    with Cons Placeholder show ?thesis by (simp add: replacer_def)
  qed
qed

lemma join_separated: "xs \<noteq> [] \<Longrightarrow> sep @ join sep xs = concat (map (\<lambda>x. sep @ x) xs)"
  by (induction sep xs rule: join.induct) simp_all

lemma join_listing: "join '', '' xs = listing xs"
proof (cases xs)
  case Nil
  then show ?thesis by (simp add: listing_def)
next
  case (Cons x xs')
  then have "'', '' @ join '', '' xs = concat (map (\<lambda>x. '', '' @ x) xs)"
    by (simp only: join_separated list.distinct not_False_eq_True)
  then have "drop 2 ('', '' @ join '', '' xs) = listing xs" by (simp only: listing_def)
  then show ?thesis by simp
qed

lemma contains_join: "n \<in> set xs \<Longrightarrow> contains (join sep xs) n"
proof (induction sep xs rule: join.induct)
  case (1 sep)
  then show ?case by simp
next
  case (2 sep x)
  then have "join sep [x] = [] @ n @ []" by simp
  then show ?case unfolding contains_iff by blast
next
  case (3 sep x y ys)
  show ?case
  proof (cases "n = x")
    case True
    then have "join sep (x # y # ys) = [] @ n @ (sep @ join sep (y # ys))" by simp
    then show ?thesis unfolding contains_iff by blast
  next
    case False
    with 3 have "contains (join sep (y # ys)) n" by simp
    then obtain pre post where "join sep (y # ys) = pre @ n @ post" unfolding contains_iff by blast
    then have "join sep (x # y # ys) = (x @ sep @ pre) @ n @ post" by simp
    then show ?thesis unfolding contains_iff by blast
  qed
qed

lemma contains_after: "contains s n \<Longrightarrow> contains (p @ s) n"
  unfolding contains_iff by (metis append.assoc)

text \<open>
  Claim C1, as amended. For a template made of placeholders \<^verbatim>\<open>{{NAME}}\<close>, whose
  names have no brace and no line break, and of pieces of text between them that
  hold no \<^verbatim>\<open>{{\<close> and do not end with \<^verbatim>\<open>{\<close>, \<^verbatim>\<open>fill_template\<close> returns a text
  exactly when every name of the template is a key of the values, and the text
  is the template with each placeholder replaced by the \<^verbatim>\<open>str\<close> of its value.
  Otherwise it raises the \<^verbatim>\<open>ValueError\<close> whose message is
  \<^verbatim>\<open>Faltan datos para: \<close> followed by the names of the template that are not
  keys, all of them, in the order of the template, with a comma and a space
  between each two; every such name occurs in the message.
\<close>

theorem fill_template_on_plain_template:
  assumes "list_all plain_segment segs"
  shows "((\<exists>out. fill_template (template_text segs) vals = Inr out) \<longleftrightarrow>
            set (referenced segs) \<subseteq> dom vals) \<and>
         (set (referenced segs) \<subseteq> dom vals \<longrightarrow>
            fill_template (template_text segs) vals = Inr (substituted vals segs)) \<and>
         (\<not> set (referenced segs) \<subseteq> dom vals \<longrightarrow>
            (\<exists>msg. fill_template (template_text segs) vals = Inl (ValueError msg) \<and>
               msg = ''Faltan datos para: '' @
                     listing (filter (\<lambda>n. n \<notin> dom vals) (referenced segs)) \<and>
               set (filter (\<lambda>n. n \<notin> dom vals) (referenced segs))
                 = set (referenced segs) - dom vals \<and>
               (\<forall>n \<in> set (referenced segs) - dom vals. contains msg n)))"
proof -
  let ?t = "template_text segs"
  let ?ms = "filter (\<lambda>n. n \<notin> dom vals) (referenced segs)"
  note d = detect_template_text [OF assms]
  note f = fill_template_by_detected [of ?t vals, unfolded d]
  have ok: "fill_template ?t vals = Inr (substituted vals segs)"
    if "set (referenced segs) \<subseteq> dom vals"
    using that f by (simp add: scan_template_text [OF assms] sub_template_text)
  have bad: "fill_template ?t vals = Inl (ValueError (''Faltan datos para: '' @ listing ?ms))"
    and listed: "\<forall>n \<in> set (referenced segs) - dom vals.
                   contains (''Faltan datos para: '' @ listing ?ms) n"
    if "\<not> set (referenced segs) \<subseteq> dom vals"
  proof -
    from that have ne: "?ms \<noteq> []" by (auto simp: filter_empty_conv)
    have j: "join '', '' ?ms = listing ?ms" by (rule join_listing)
    with that f show "fill_template ?t vals = Inl (ValueError (''Faltan datos para: '' @ listing ?ms))"
      by simp
    show "\<forall>n \<in> set (referenced segs) - dom vals.
                   contains (''Faltan datos para: '' @ listing ?ms) n"
    proof
      fix n assume "n \<in> set (referenced segs) - dom vals"
      then have "n \<in> set ?ms" by auto
      then have "contains (join '', '' ?ms) n" by (rule contains_join)
      then show "contains (''Faltan datos para: '' @ listing ?ms) n"
        unfolding j by (rule contains_after)
    qed
  qed
  have s: "set ?ms = set (referenced segs) - dom vals" by auto
  from ok bad listed s show ?thesis by (metis sum.distinct(1))
qed

text \<open>
  The amended claim on a template with a style rule: two names without a value
  are both listed, and with all three values the text is returned.
\<close>

theorem fill_template_on_plain_template_witness:
  "list_all plain_segment styled_template \<and>
   template_text styled_template = ''h1 {margin: 0} {{titulo}} por {{autor}}, {{fecha}}'' \<and>
   fill_template ''h1 {margin: 0} {{titulo}} por {{autor}}, {{fecha}}'' [''titulo'' \<mapsto> PyStr ''Hola'']
     = Inl (ValueError ''Faltan datos para: autor, fecha'') \<and>
   fill_template ''h1 {margin: 0} {{titulo}} por {{autor}}, {{fecha}}''
       [''titulo'' \<mapsto> PyStr ''Hola'', ''autor'' \<mapsto> PyStr ''Ana'', ''fecha'' \<mapsto> PyInt 2024]
     = Inr ''h1 {margin: 0} Hola por Ana, 2024''"
proof -
  have p: "list_all plain_segment styled_template"
    by (simp add: styled_template_def startswith_def endswith_def brace_free_def)
  have t: "template_text styled_template = ''h1 {margin: 0} {{titulo}} por {{autor}}, {{fecha}}''"
    by (simp add: styled_template_def)
  have r: "referenced styled_template = [''titulo'', ''autor'', ''fecha'']" by (simp add: styled_template_def)
  have i: "str_int 2024 = ''2024''" by code_simp
  from fill_template_on_plain_template [OF p, of "[''titulo'' \<mapsto> PyStr ''Hola'']"]
  have "fill_template (template_text styled_template) [''titulo'' \<mapsto> PyStr ''Hola'']
     = Inl (ValueError ''Faltan datos para: autor, fecha'')"
    by (simp add: r listing_def)
  moreover
  from fill_template_on_plain_template [OF p,
     of "[''titulo'' \<mapsto> PyStr ''Hola'', ''autor'' \<mapsto> PyStr ''Ana'', ''fecha'' \<mapsto> PyInt 2024]"]
  have "fill_template (template_text styled_template)
       [''titulo'' \<mapsto> PyStr ''Hola'', ''autor'' \<mapsto> PyStr ''Ana'', ''fecha'' \<mapsto> PyInt 2024]
     = Inr ''h1 {margin: 0} Hola por Ana, 2024''"
    by (simp add: r i styled_template_def)
  ultimately show ?thesis using p t by simp
qed

text \<open>
  The claim as first stated fails when a brace stands before a placeholder: in
  \<^verbatim>\<open>{{{A}}\<close> the expression \<^verbatim>\<open>\{\{(.*?)\}\}\<close> matches from the first brace and
  takes \<^verbatim>\<open>{A\<close> for the name, so the call raises although \<^verbatim>\<open>A\<close>, the name
  written between the delimiters, has a value.
\<close>

theorem stray_brace_hides_supplied_name:
  "fill_template ''{{{A}}'' [''A'' \<mapsto> PyStr ''x''] = Inl (ValueError ''Faltan datos para: {A'') \<and>
   template_text [Literal ''{'', Placeholder ''A''] = ''{{{A}}'' \<and>
   referenced [Literal ''{'', Placeholder ''A''] = [''A''] \<and>
   ''A'' \<in> dom [''A'' \<mapsto> PyStr ''x'']"
  by (simp add: fill_template_def detect_placeholders_def match_placeholder_def startswith_def)

section \<open>The non-failing renderer\<close>

lemma str_replace_skip:
  assumes "p \<noteq> []" and "\<And>i. i < length u \<Longrightarrow> \<not> prefix p (drop i (u @ b))"
  shows "str_replace (u @ b) p new = u @ str_replace b p new"
  using assms(2)
proof (induction u)
  case Nil
  then show ?case by simp
next
  case (Cons c u)
  from Cons.prems [of 0] have n0: "\<not> prefix p (c # u @ b)" by simp
  have "\<And>i. i < length u \<Longrightarrow> \<not> prefix p (drop i (u @ b))"
    using Cons.prems [of "Suc _"] by simp
  then have "str_replace (u @ b) p new = u @ str_replace b p new" by (rule Cons.IH)
  with n0 assms(1) show ?case by (simp add: startswith_prefix)
qed

lemma str_replace_keeps:
  assumes pne: "p \<noteq> []"
    and inside: "\<And>i b. i < length q \<Longrightarrow> \<not> prefix p (drop i (q @ b))"
    and into: "\<And>a b. a \<noteq> [] \<Longrightarrow> prefix p (a @ q @ b) \<Longrightarrow> length p \<le> length a"
  shows "\<exists>a' b'. str_replace (a @ q @ b) p new = a' @ q @ b'"
proof (induction a rule: length_induct)
  case (1 a)
  show ?case
  proof (cases a)
    case Nil
    have "str_replace (q @ b) p new = q @ str_replace b p new"
      by (rule str_replace_skip [OF pne]) (rule inside)
    with Nil show ?thesis by (metis append_Nil)
  next
    case (Cons c a')
    show ?thesis
    proof (cases "prefix p (a @ q @ b)")
      case True
      with into [of a b] Cons have le: "length p \<le> length a" by simp
      then have d: "drop (length p - 1) (a' @ q @ b) = drop (length p - 1) a' @ q @ b"
        using Cons by simp
      have "length (drop (length p - 1) a') < length a" using Cons by simp
      with "1.IH" obtain a'' b'' where
        "str_replace (drop (length p - 1) a' @ q @ b) p new = a'' @ q @ b''" by blast
      with True Cons pne d have "str_replace (a @ q @ b) p new = (new @ a'') @ q @ b''"
        by (simp add: startswith_prefix)
      then show ?thesis by blast
    next
      case False
      have "length a' < length a" using Cons by simp
      with "1.IH" obtain a'' b'' where "str_replace (a' @ q @ b) p new = a'' @ q @ b''" by blast
      with False Cons pne have "str_replace (a @ q @ b) p new = (c # a'') @ q @ b''"
        by (simp add: startswith_prefix)
      then show ?thesis by blast
    qed
  qed
qed

lemma search_text_token:
  assumes "placeholder_key k"
  shows "\<exists>m. brace_free m \<and> search_text k = ''{{'' @ m @ ''}}'' \<and> (m = k \<or> k = ''{{'' @ m @ ''}}'')"
proof (cases "brace_free k")
  case True
  then have "\<not> startswith k ''{{''"
    by (cases k) (auto simp: brace_free_def startswith_def)
  with True show ?thesis by (auto simp: search_text_def)
next
  case False
  with assms have sw: "startswith k ''{{''" and ew: "endswith k ''}}''" and len: "4 \<le> length k"
    and bf: "brace_free (drop 2 (take (length k - 2) k))"
    by (auto simp: placeholder_key_def)
  let ?m = "drop 2 (take (length k - 2) k)"
  have "k = take (length k - 2) k @ drop (length k - 2) k" by simp
  also have "drop (length k - 2) k = ''}}''" using ew by (simp add: endswith_def numeral_2_eq_2)
  also have "take (length k - 2) k = take 2 (take (length k - 2) k) @ ?m"
    by (simp only: append_take_drop_id)
  also have "take 2 (take (length k - 2) k) = take 2 k"
  proof -
    from len have "min 2 (length k - 2) = 2" by arith
    then show ?thesis by (simp only: take_take)
  qed
  also have "take 2 k = ''{{''" using sw by (simp add: startswith_def numeral_2_eq_2)
  finally have k: "k = ''{{'' @ ?m @ ''}}''" by simp
  with sw bf show ?thesis by (auto simp: search_text_def)
qed

lemma str_replace_keeps_token:
  assumes k: "placeholder_key k" and n: "brace_free n"
    and nk: "k \<noteq> n" "k \<noteq> ''{{'' @ n @ ''}}''"
    and c: "contains s (''{{'' @ n @ ''}}'')"
  shows "contains (str_replace s (search_text k) new) (''{{'' @ n @ ''}}'')"
proof -
  from search_text_token [OF k] obtain m where m: "brace_free m"
    and st: "search_text k = ''{{'' @ m @ ''}}''" and km: "m = k \<or> k = ''{{'' @ m @ ''}}''"
    by blast
  from km nk have neq: "m \<noteq> n" by auto
  from c obtain a b where s: "s = a @ (''{{'' @ n @ ''}}'') @ b"
    by (auto simp: contains_iff)
  have "\<exists>a' b'. str_replace (a @ (''{{'' @ n @ ''}}'') @ b) (''{{'' @ m @ ''}}'') new
          = a' @ (''{{'' @ n @ ''}}'') @ b'"
  proof (rule str_replace_keeps)
    show "''{{'' @ m @ ''}}'' \<noteq> []" by simp
  next
    fix i b' assume "i < length (''{{'' @ n @ ''}}'')"
    then show "\<not> prefix (''{{'' @ m @ ''}}'') (drop i ((''{{'' @ n @ ''}}'') @ b'))"
      by (rule token_not_inside [OF m n neq])
  next
    fix a' b' assume "a' \<noteq> []" and "prefix (''{{'' @ m @ ''}}'') (a' @ (''{{'' @ n @ ''}}'') @ b')"
    then show "length (''{{'' @ m @ ''}}'') \<le> length a'"
      by (rule token_not_into [OF m])
  qed
  then show ?thesis unfolding s st contains_iff by blast
qed

lemma str_replace_whole: "p \<noteq> [] \<Longrightarrow> str_replace p p new = new"
  by (cases p) (auto simp: startswith_def)

lemma search_text_nonempty: "search_text k \<noteq> []"
  by (auto simp: search_text_def startswith_def)

text \<open>
  Claim C10, as the code has it. \<^verbatim>\<open>replace_placeholders\<close> has no failing
  branch: for string keys it returns a text for every template and every
  mapping. When the keys are placeholder names, bare or between their
  delimiters, a placeholder of the template whose name is neither of the two
  forms of a key is still in the result. A value \<^verbatim>\<open>None\<close> is substituted as
  the empty text, any other value as its \<^verbatim>\<open>str\<close>.
\<close>

theorem unmatched_placeholder_is_kept:
  assumes keys: "list_all placeholder_key (map fst vals)"
    and name: "brace_free n"
    and nokey: "n \<notin> set (map fst vals)" "''{{'' @ n @ ''}}'' \<notin> set (map fst vals)"
    and occurs: "contains template (''{{'' @ n @ ''}}'')"
  shows "contains (replace_placeholders template vals) (''{{'' @ n @ ''}}'') \<and>
         replace_placeholders (search_text k) [(k, PyNone)] = [] \<and>
         replace_placeholders (search_text k) [(k, PyStr v)] = v"
proof -
  have kept: "contains (replace_placeholders template vals) (''{{'' @ n @ ''}}'')"
    using keys nokey occurs
  proof (induction vals arbitrary: template)
    case Nil
    then show ?case by simp
  next
    case (Cons kv vals)
    obtain key val where kv: "kv = (key, val)" by (cases kv)
    from Cons.prems kv have "placeholder_key key" "key \<noteq> n" "key \<noteq> ''{{'' @ n @ ''}}''"
      by auto
    then have "contains (str_replace template (search_text key)
                 (if val \<noteq> PyNone then py_str val else [])) (''{{'' @ n @ ''}}'')"
      using name Cons.prems(4) by (intro str_replace_keeps_token)
    moreover from Cons.prems have "list_all placeholder_key (map fst vals)"
      "n \<notin> set (map fst vals)" "''{{'' @ n @ ''}}'' \<notin> set (map fst vals)" by auto
    ultimately show ?case using Cons.IH kv by simp
  qed
  have "replace_placeholders (search_text k) [(k, PyNone)] = []"
    "replace_placeholders (search_text k) [(k, PyStr v)] = v"
    by (simp_all add: str_replace_whole search_text_nonempty)
  with kept show ?thesis by simp
qed

theorem unmatched_placeholder_is_kept_witness:
  "list_all placeholder_key (map fst [(''TITLE'', PyStr ''Hola''), (''{{SLUG}}'', PyNone), (''READING_TIME'', PyInt 3)]) \<and>
   brace_free ''AUTHOR'' \<and>
   contains ''<h1>{{TITLE}}</h1>{{AUTHOR}}/{{SLUG}}/{{READING_TIME}}'' ''{{AUTHOR}}'' \<and>
   contains (replace_placeholders ''<h1>{{TITLE}}</h1>{{AUTHOR}}/{{SLUG}}/{{READING_TIME}}''
      [(''TITLE'', PyStr ''Hola''), (''{{SLUG}}'', PyNone), (''READING_TIME'', PyInt 3)]) ''{{AUTHOR}}'' \<and>
   replace_placeholders ''<h1>{{TITLE}}</h1>{{AUTHOR}}/{{SLUG}}/{{READING_TIME}}''
      [(''TITLE'', PyStr ''Hola''), (''{{SLUG}}'', PyNone), (''READING_TIME'', PyInt 3)]
     = ''<h1>Hola</h1>{{AUTHOR}}//3''"
proof -
  have k: "list_all placeholder_key (map fst [(''TITLE'', PyStr ''Hola''), (''{{SLUG}}'', PyNone), (''READING_TIME'', PyInt 3)])"
    by (simp add: placeholder_key_def brace_free_def startswith_def endswith_def)
  have b: "brace_free ''AUTHOR''" by (simp add: brace_free_def)
  have c: "contains ''<h1>{{TITLE}}</h1>{{AUTHOR}}/{{SLUG}}/{{READING_TIME}}'' (''{{'' @ ''AUTHOR'' @ ''}}'')"
    by (simp add: startswith_def)
  have r: "replace_placeholders ''<h1>{{TITLE}}</h1>{{AUTHOR}}/{{SLUG}}/{{READING_TIME}}''
      [(''TITLE'', PyStr ''Hola''), (''{{SLUG}}'', PyNone), (''READING_TIME'', PyInt 3)]
     = ''<h1>Hola</h1>{{AUTHOR}}//3''"
    by code_simp
  from unmatched_placeholder_is_kept [OF k b _ _ c] k b c r
  show ?thesis by simp
qed

text \<open>
  The claim as it was stated fails for a key that is not a placeholder name: a
  key that starts with the opening delimiter is searched for as it is, so the
  key made of the opening delimiter alone takes the placeholder apart.
\<close>

theorem key_of_delimiters_breaks_placeholder:
  "replace_placeholders ''<p>{{A}}</p>'' [(''{{'', PyStr ''x'')] = ''<p>xA}}</p>'' \<and>
   contains ''<p>{{A}}</p>'' ''{{A}}'' \<and>
   \<not> contains (replace_placeholders ''<p>{{A}}</p>'' [(''{{'', PyStr ''x'')]) ''{{A}}''"
  by (simp add: search_text_def startswith_def)

section \<open>The validators of the enumerated kind\<close>

lemma split_nonempty: "split s sep \<noteq> []"
  by (induction s) auto

lemma split_fields_free: "f \<in> set (split s sep) \<Longrightarrow> sep \<notin> set f"
proof (induction s arbitrary: f)
  case Nil
  then show ?case by simp
next
  case (Cons c cs)
  obtain h t where ht: "split cs sep = h # t"
    using split_nonempty [of cs sep] by (cases "split cs sep") auto
  from Cons ht show ?case by (auto split: if_splits)
qed

lemma join_cons_char: "join sep ((c # h) # t) = c # join sep (h # t)"
  by (cases t) auto

lemma join_split: "join [sep] (split s sep) = s"
proof (induction s)
  case Nil
  then show ?case by simp
next
  case (Cons c cs)
  obtain h t where ht: "split cs sep = h # t"
    using split_nonempty [of cs sep] by (cases "split cs sep") auto
  with Cons show ?case by (auto simp: join_cons_char)
qed

lemma split_no_sep: "sep \<notin> set f \<Longrightarrow> split f sep = [f]"
  by (induction f) auto

lemma split_append_sep: "sep \<notin> set f \<Longrightarrow> split (f @ sep # rest) sep = f # split rest sep"
  by (induction f) auto

lemma split_join:
  "fs \<noteq> [] \<Longrightarrow> \<forall>f \<in> set fs. sep \<notin> set f \<Longrightarrow> split (join [sep] fs) sep = fs"
proof (induction fs)
  case Nil
  then show ?case by simp
next
  case (Cons f rest)
  show ?case
  proof (cases rest)
    case Nil
    with Cons.prems show ?thesis by (simp add: split_no_sep)
  next
    case (Cons g gs)
    with Cons.IH Cons.prems have "split (join [sep] rest) sep = rest" by simp
    with Cons Cons.prems show ?thesis by (simp add: split_append_sep)
  qed
qed

lemma comma_fields_split: "comma_fields s fs \<longleftrightarrow> fs = split s CHR '',''"
proof
  assume "comma_fields s fs"
  then show "fs = split s CHR '',''"
    using split_join [of fs "CHR '',''"] by (simp add: comma_fields_def)
next
  assume "fs = split s CHR '',''"
  then show "comma_fields s fs"
    using split_nonempty [of s "CHR '',''"] split_fields_free [of _ s "CHR '',''"]
      join_split [of "CHR '',''" s]
    by (auto simp: comma_fields_def)
qed

lemma dropWhile_all_prefix: "\<forall>c \<in> set xs. P c \<Longrightarrow> dropWhile P (xs @ ys) = dropWhile P ys"
  by (induction xs) auto

lemma trimmed_strip: "trimmed s (strip s)"
proof -
  let ?a = "dropWhile is_space s"
  let ?l = "takeWhile is_space s"
  let ?r = "rev (takeWhile is_space (rev ?a))"
  have a: "?a = strip s @ ?r"
  proof -
    have "strip s @ ?r = rev (takeWhile is_space (rev ?a) @ dropWhile is_space (rev ?a))"
      by (simp only: strip_def rev_append)
    also have "\<dots> = ?a" by simp
    finally show ?thesis by simp
  qed
  have s: "s = ?l @ strip s @ ?r"
    using a takeWhile_dropWhile_id [of is_space s] by simp
  have l: "\<forall>c \<in> set ?l. is_space c" by (auto dest: set_takeWhileD)
  have r: "\<forall>c \<in> set ?r. is_space c" by (auto dest: set_takeWhileD)
  have e: "\<not> is_space (hd (strip s)) \<and> \<not> is_space (last (strip s))" if ne: "strip s \<noteq> []"
  proof -
    from ne have ne': "dropWhile is_space (rev ?a) \<noteq> []" by (simp add: strip_def)
    have "last (strip s) = hd (dropWhile is_space (rev ?a))"
      using ne' by (simp add: strip_def last_rev)
    then have la: "\<not> is_space (last (strip s))" using ne' hd_dropWhile by metis
    from ne a have ane: "?a \<noteq> []" by (metis Nil_is_append_conv)
    have "hd (strip s) = hd ?a" using a ne by (metis hd_append2)
    then have "\<not> is_space (hd (strip s))" using ane hd_dropWhile by metis
    with la show ?thesis by simp
  qed
  from s l r e show ?thesis unfolding trimmed_def by blast
qed

lemma trimmed_unique: assumes "trimmed s t" shows "t = strip s"
proof -
  from assms obtain l r where s: "s = l @ t @ r"
    and l: "\<forall>c \<in> set l. is_space c" and r: "\<forall>c \<in> set r. is_space c"
    and e: "t = [] \<or> (\<not> is_space (hd t) \<and> \<not> is_space (last t))"
    unfolding trimmed_def by blast
  show ?thesis
  proof (cases "t = []")
    case True
    with s l r have "\<forall>c \<in> set s. is_space c" by auto
    then have dn: "dropWhile is_space s = []" by (induction s) auto
    show ?thesis unfolding strip_def dn True by simp
  next
    case False
    with e have h: "\<not> is_space (hd t)" and la: "\<not> is_space (last t)" by simp_all
    have "dropWhile is_space s = dropWhile is_space (t @ r)"
      using l by (simp add: s dropWhile_all_prefix)
    also have "\<dots> = t @ r" using False h by (cases t) auto
    finally have d: "dropWhile is_space s = t @ r" .
    have "dropWhile is_space (rev (t @ r)) = dropWhile is_space (rev t)"
      using r by (simp add: dropWhile_all_prefix)
    also have "\<dots> = rev t" using False la by (cases "rev t") (auto simp: last_rev [symmetric] hd_rev)
    finally show ?thesis by (simp add: strip_def d)
  qed
qed

lemma allowed_values_code: "allowed_values opts = set (map strip (split opts CHR '',''))"
proof -
  have "allowed_values opts = {t. \<exists>f. f \<in> set (split opts CHR '','') \<and> trimmed f t}"
    by (auto simp: allowed_values_def comma_fields_split)
  also have "\<dots> = {t. \<exists>f. f \<in> set (split opts CHR '','') \<and> t = strip f}"
    using trimmed_strip trimmed_unique by blast
  finally show ?thesis by auto
qed

text \<open>
  Claim C4, as amended. For the enumerated kind both validators accept an empty
  or absent value, and otherwise compare the value as it was given, without
  trimming it and with regard to case, with the entries of the options, split at
  the commas and each trimmed: \<^verbatim>\<open>validate_placeholder_value\<close> when the options
  are not empty, \<^verbatim>\<open>CustomPlaceholder.validate_value\<close> always, so that with empty
  or absent options it has no allowed entry and rejects every value that is not
  empty.
\<close>

theorem enumerated_value_is_compared_untrimmed:
  "(\<not> falsy opts \<longrightarrow>
      (validate_placeholder_value float_ok ''desplegable'' v opts \<longleftrightarrow>
         falsy v \<or> the v \<in> allowed_values (the opts))) \<and>
   (placeholder_type ph = ''desplegable'' \<longrightarrow>
      (validate_value float_ok ph v \<longleftrightarrow>
         falsy v \<or> (\<not> falsy (options ph) \<and> the v \<in> allowed_values (the (options ph)))))"
  by (simp add: validate_placeholder_value_def validate_value_def allowed_values_code Let_def)

text \<open>
  The amended claim on the options \<^verbatim>\<open>Red, Green ,Blue\<close>: \<^verbatim>\<open>Green\<close> is accepted
  and \<^verbatim>\<open>green\<close> rejected by both validators, and the method rejects \<^verbatim>\<open>x\<close> when
  the options are empty.
\<close>

theorem enumerated_value_is_compared_untrimmed_witness:
  "\<not> falsy (Some ''Red, Green ,Blue'') \<and>
   placeholder_type \<lparr>row_id = Some 1, site_id = 4, placeholder_name = ''COLOR'',
      display_name = ''Color'', placeholder_type = ''desplegable'',
      options = Some ''Red, Green ,Blue''\<rparr> = ''desplegable'' \<and>
   ''Green'' \<in> allowed_values ''Red, Green ,Blue'' \<and>
   validate_placeholder_value (\<lambda>s. False) ''desplegable'' (Some ''Green'')
      (Some ''Red, Green ,Blue'') \<and>
   validate_value (\<lambda>s. False) \<lparr>row_id = Some 1, site_id = 4, placeholder_name = ''COLOR'',
      display_name = ''Color'', placeholder_type = ''desplegable'',
      options = Some ''Red, Green ,Blue''\<rparr> (Some ''Green'') \<and>
   ''green'' \<notin> allowed_values ''Red, Green ,Blue'' \<and>
   \<not> validate_placeholder_value (\<lambda>s. False) ''desplegable'' (Some ''green'')
      (Some ''Red, Green ,Blue'') \<and>
   \<not> validate_value (\<lambda>s. False) \<lparr>row_id = Some 1, site_id = 4, placeholder_name = ''COLOR'',
      display_name = ''Color'', placeholder_type = ''desplegable'',
      options = Some ''Red, Green ,Blue''\<rparr> (Some ''green'') \<and>
   \<not> validate_value (\<lambda>s. False) \<lparr>row_id = Some 1, site_id = 4, placeholder_name = ''COLOR'',
      display_name = ''Color'', placeholder_type = ''desplegable'',
      options = Some []\<rparr> (Some ''x'')"
proof -
  have a: "allowed_values ''Red, Green ,Blue'' = {''Red'', ''Green'', ''Blue''}"
    by (simp add: allowed_values_code strip_def is_space_def)
  show ?thesis
    using enumerated_value_is_compared_untrimmed
      [of "Some ''Red, Green ,Blue''" "\<lambda>s. False" "Some ''Green''"
          "\<lparr>row_id = Some 1, site_id = 4, placeholder_name = ''COLOR'',
            display_name = ''Color'', placeholder_type = ''desplegable'',
            options = Some ''Red, Green ,Blue''\<rparr>"]
      enumerated_value_is_compared_untrimmed
      [of "Some ''Red, Green ,Blue''" "\<lambda>s. False" "Some ''green''"
          "\<lparr>row_id = Some 1, site_id = 4, placeholder_name = ''COLOR'',
            display_name = ''Color'', placeholder_type = ''desplegable'',
            options = Some ''Red, Green ,Blue''\<rparr>"]
      enumerated_value_is_compared_untrimmed
      [of "Some ''Red, Green ,Blue''" "\<lambda>s. False" "Some ''x''"
          "\<lparr>row_id = Some 1, site_id = 4, placeholder_name = ''COLOR'',
            display_name = ''Color'', placeholder_type = ''desplegable'',
            options = Some []\<rparr>"]
    by (simp add: a falsy_def)
qed

text \<open>
  The claim as it was stated fails: a value with a space before it, whose
  trimmed form is an entry of the options, is rejected by both validators.
\<close>

theorem enumerated_value_with_space_is_rejected:
  "strip '' Green'' \<in> set (map strip (split ''Red,Green,Blue'' CHR '','')) \<and>
   \<not> validate_placeholder_value (\<lambda>s. False) ''desplegable'' (Some '' Green'')
       (Some ''Red,Green,Blue'') \<and>
   \<not> validate_value (\<lambda>s. False) \<lparr>row_id = Some 1, site_id = 4, placeholder_name = ''COLOR'',
      display_name = ''Color'', placeholder_type = ''desplegable'',
      options = Some ''Red,Green,Blue''\<rparr> (Some '' Green'')"
  by (simp add: validate_placeholder_value_def validate_value_def falsy_def strip_def
      is_space_def)

section \<open>The state manager\<close>

lemma execute_fault: "faults d = True # fs \<Longrightarrow> execute d = (False, d\<lparr>faults := fs\<rparr>)"
  by (simp add: execute_def)

lemma get_conversation_after_update:
  "get_conversation u (w\<lparr>conversations := (conversations w)(u \<mapsto> c)\<rparr>) =
     (c, w\<lparr>conversations := (conversations w)(u \<mapsto> c)\<rparr>)"
  by (simp add: get_conversation_def)

lemma save_to_db_conversations: "conversations (save_to_db dumps u w) = conversations w"
  by (auto simp: save_to_db_def save_to_db_try_def split: option.splits prod.splits bool.splits)

lemma save_to_db_fault:
  assumes "faults (db w) = True # fs" and "conversations w u = Some c" and "dumps (data c) = Some txt"
  shows "save_to_db_try dumps u w = (Some OperationalError, w\<lparr>db := (db w)\<lparr>faults := fs\<rparr>\<rparr>)"
  using assms by (simp add: save_to_db_try_def execute_fault)

text \<open>
  Claim C3, as the code has it. When the row store fails during
  \<^verbatim>\<open>set_state\<close> or \<^verbatim>\<open>set_data\<close>, the exception is caught and logged inside
  \<^verbatim>\<open>_save_to_db\<close> and the call returns normally: the table in memory already
  holds the new phase or value, so the next \<^verbatim>\<open>get_state\<close> returns the new
  phase; only the durable rows are as they were.
\<close>

theorem store_fault_is_logged_and_memory_keeps_new_phase:
  assumes fault: "faults (db w) = True # fs"
    and json: "\<And>m. dumps m \<noteq> None"
  shows "fst (get_state u (set_state dumps u st w)) = st \<and>
         user_states (db (set_state dumps u st w)) = user_states (db w) \<and>
         LogError ''Error al guardar estado en la base de datos: {e}'' OperationalError
           \<in> set (logs (set_state dumps u st w)) \<and>
         map_option data (conversations (set_data dumps u k v w) u)
           = Some ((case conversations w u of None \<Rightarrow> Map.empty | Some c \<Rightarrow> data c)(k \<mapsto> v)) \<and>
         user_states (db (set_data dumps u k v w)) = user_states (db w) \<and>
         LogError ''Error al guardar estado en la base de datos: {e}'' OperationalError
           \<in> set (logs (set_data dumps u k v w))"
proof -
  obtain c w1 where gc: "get_conversation u w = (c, w1)" by (cases "get_conversation u w")
  have db1: "db w1 = db w" and lg1: "logs w1 = logs w"
    using gc by (auto simp: get_conversation_def split: option.splits)
  let ?w2 = "w1\<lparr>conversations := (conversations w1)(u \<mapsto> update_state st c)\<rparr>"
  obtain t where t: "dumps (data (update_state st c)) = Some t" using json by blast
  have try2: "save_to_db_try dumps u ?w2 = (Some OperationalError, ?w2\<lparr>db := (db ?w2)\<lparr>faults := fs\<rparr>\<rparr>)"
    by (rule save_to_db_fault [where c = "update_state st c"]) (simp_all add: db1 fault t)
  let ?w3 = "save_to_db dumps u ?w2"
  have w3: "?w3 = ?w2\<lparr>db := (db ?w2)\<lparr>faults := fs\<rparr>,
                  logs := logs ?w2 @ [LogError ''Error al guardar estado en la base de datos: {e}'' OperationalError]\<rparr>"
    by (simp add: save_to_db_def try2)
  have ss: "set_state dumps u st w = ?w3\<lparr>logs := logs ?w3 @ [LogInfo ''Estado de usuario {user_id} actualizado a {state.name}'']\<rparr>"
    by (simp add: set_state_def gc Let_def)
  have p1: "fst (get_state u (set_state dumps u st w)) = st"
    unfolding ss w3 by (simp add: get_state_def get_conversation_def update_state_def)
  have p2: "user_states (db (set_state dumps u st w)) = user_states (db w)"
    unfolding ss w3 by (simp add: db1)
  have p3: "LogError ''Error al guardar estado en la base de datos: {e}'' OperationalError
           \<in> set (logs (set_state dumps u st w))"
    unfolding ss w3 by simp
  let ?v2 = "w1\<lparr>conversations := (conversations w1)(u \<mapsto> set_data_conv k v c)\<rparr>"
  obtain t' where t': "dumps (data (set_data_conv k v c)) = Some t'" using json by blast
  have tryd: "save_to_db_try dumps u ?v2 = (Some OperationalError, ?v2\<lparr>db := (db ?v2)\<lparr>faults := fs\<rparr>\<rparr>)"
    by (rule save_to_db_fault [where c = "set_data_conv k v c"]) (simp_all add: db1 fault t')
  have sd: "set_data dumps u k v w = ?v2\<lparr>db := (db ?v2)\<lparr>faults := fs\<rparr>,
                  logs := logs ?v2 @ [LogError ''Error al guardar estado en la base de datos: {e}'' OperationalError]\<rparr>"
    by (simp add: set_data_def gc save_to_db_def tryd)
  have cdata: "data c = (case conversations w u of None \<Rightarrow> Map.empty | Some c \<Rightarrow> data c)"
    using gc by (auto simp: get_conversation_def new_conversation_def split: option.splits)
  have p4: "map_option data (conversations (set_data dumps u k v w) u)
           = Some ((case conversations w u of None \<Rightarrow> Map.empty | Some c \<Rightarrow> data c)(k \<mapsto> v))"
    unfolding sd by (simp add: set_data_conv_def cdata [symmetric])
  have p5: "user_states (db (set_data dumps u k v w)) = user_states (db w)"
    unfolding sd by (simp add: db1)
  have p6: "LogError ''Error al guardar estado en la base de datos: {e}'' OperationalError
           \<in> set (logs (set_data dumps u k v w))"
    unfolding sd by simp
  from p1 p2 p3 p4 p5 p6 show ?thesis by blast
qed

theorem store_fault_is_logged_and_memory_keeps_new_phase_witness:
  "faults (db store_down_world) = True # [] \<and>
   fst (get_state 1 (set_state (\<lambda>m. Some ''{}'') 1 IDLE store_down_world)) = IDLE \<and>
   user_states (db (set_state (\<lambda>m. Some ''{}'') 1 IDLE store_down_world))
     = user_states example_db \<and>
   LogError ''Error al guardar estado en la base de datos: {e}'' OperationalError
     \<in> set (logs (set_state (\<lambda>m. Some ''{}'') 1 IDLE store_down_world))"
proof -
  have f: "faults (db store_down_world) = True # []"
    by (simp add: store_down_world_def)
  have j: "(\<lambda>m :: string \<rightharpoonup> string. Some ''{}'') m \<noteq> None" for m by simp
  have u: "user_states (db store_down_world) = user_states example_db"
    by (simp add: store_down_world_def)
  from store_fault_is_logged_and_memory_keeps_new_phase
         [of store_down_world "[]" "\<lambda>m. Some ''{}''" 1 IDLE, OF f j] f u
  show ?thesis by simp
qed

text \<open>
  The claim as it was stated fails for the world above: the phase of the user
  was \<^verbatim>\<open>UPLOADING_TEMPLATE\<close>, the store fails while the phase is set to
  \<^verbatim>\<open>IDLE\<close>, the call returns with the fault in its log, and the phase read
  next is \<^verbatim>\<open>IDLE\<close>.
\<close>

theorem store_fault_changes_observable_phase:
  "fst (get_state 1 store_down_world) = UPLOADING_TEMPLATE \<and>
   fst (get_state 1 (set_state (\<lambda>m. Some ''{}'') 1 IDLE store_down_world)) = IDLE \<and>
   fst (save_to_db_try (\<lambda>m. Some ''{}'') 1
          (store_down_world\<lparr>conversations :=
             [1 \<mapsto> \<lparr>state = IDLE, data = Map.empty\<rparr>]\<rparr>)) = Some OperationalError \<and>
   logs (set_state (\<lambda>m. Some ''{}'') 1 IDLE store_down_world)
     = [LogError ''Error al guardar estado en la base de datos: {e}'' OperationalError,
        LogInfo ''Estado de usuario {user_id} actualizado a {state.name}'']"
  by (simp add: store_down_world_def example_db_def get_state_def set_state_def
      get_conversation_def update_state_def save_to_db_def save_to_db_try_def execute_def)

lemma execute_tables:
  assumes "execute d = (ok, d')"
  shows "users d' = users d" and "user_states d' = user_states d"
    and "custom_placeholders d' = custom_placeholders d" and "sites d' = sites d"
    and "lastrowid d' = lastrowid d"
  using assms by (auto simp: execute_def split: list.splits)

lemma get_by_telegram_id_effect:
  assumes "get_by_telegram_id t w = (r, w1)"
  shows "conversations w1 = conversations w" and "users (db w1) = users (db w)"
    and "user_states (db w1) = user_states (db w)"
    and "r = None \<or> r = users (db w) t"
proof -
  obtain ok d where e: "execute (db w) = (ok, d)" by (cases "execute (db w)")
  note tabs = execute_tables [OF e]
  from assms e show "conversations w1 = conversations w"
    by (cases ok) (auto simp: get_by_telegram_id_def)
  from assms e tabs show "users (db w1) = users (db w)"
    by (cases ok) (auto simp: get_by_telegram_id_def)
  from assms e tabs show "user_states (db w1) = user_states (db w)"
    by (cases ok) (auto simp: get_by_telegram_id_def)
  from assms e tabs show "r = None \<or> r = users (db w) t"
    by (cases ok) (auto simp: get_by_telegram_id_def)
qed

lemma stored_users_filter:
  "user_states d' = map_option (filter (\<lambda>r. telegram_id r \<noteq> t)) (user_states d)
   \<Longrightarrow> stored_users d' = stored_users d - {t}"
  by (cases "user_states d") (auto simp: stored_users_def)

lemma restore_rows_invariant:
  assumes "restore_rows loads rows w = (oc, w')"
  shows "users (db w') = users (db w) \<and>
         (\<forall>u. \<not> active_user (db w) u \<longrightarrow> conversations w' u = conversations w u) \<and>
         stored_users (db w') \<subseteq> stored_users (db w) \<and>
         (oc = None \<longrightarrow>
            (\<forall>r \<in> set rows. \<not> active_user (db w) (telegram_id r)
                 \<longrightarrow> telegram_id r \<notin> stored_users (db w')))"
  using assms
proof (induction rows arbitrary: w)
  case Nil
  then show ?case by simp
next
  case (Cons row rows)
  let ?t = "telegram_id row"
  show ?case
  proof (cases "if falsy (state_data row) then Some Map.empty else loads (the (state_data row))")
    case None
    with Cons.prems show ?thesis by auto
  next
    case (Some sdata)
    obtain db_user w1 where g: "get_by_telegram_id ?t w = (db_user, w1)"
      by (cases "get_by_telegram_id ?t w")
    note eff = get_by_telegram_id_effect [OF g]
    have act: "active_user (db w1) = active_user (db w)"
      by (rule ext) (simp add: active_user_def eff)
    have st1: "stored_users (db w1) = stored_users (db w)"
      by (simp add: stored_users_def eff)
    show ?thesis
    proof (cases "db_user \<noteq> None \<and> is_active (the db_user)")
      case True
      then have isact: "active_user (db w) ?t"
        using eff(4) by (cases "users (db w) ?t") (auto simp: active_user_def)
      show ?thesis
      proof (cases "State_of (state_enum row)")
        case (Inl e)
        with Cons.prems Some g True eff st1 show ?thesis by auto
      next
        case (Inr st)
        let ?w2 = "w1\<lparr>conversations := (conversations w1)(?t \<mapsto> \<lparr>state = st, data = sdata\<rparr>),
                      logs := logs w1 @ [LogDebug ''Estado restaurado para usuario {user_id}: {State(state_enum).name}'']\<rparr>"
        from Cons.prems Some g True Inr have rec: "restore_rows loads rows ?w2 = (oc, w')"
          by simp
        have db2: "db ?w2 = db w1" by simp
        have ih:
          "users (db w') = users (db w1)"
          "\<forall>u. \<not> active_user (db w1) u \<longrightarrow> conversations w' u = conversations ?w2 u"
          "stored_users (db w') \<subseteq> stored_users (db w1)"
          "oc = None \<longrightarrow> (\<forall>r \<in> set rows. \<not> active_user (db w1) (telegram_id r)
                 \<longrightarrow> telegram_id r \<notin> stored_users (db w'))"
          using Cons.IH [OF rec] unfolding db2 by blast+
        have c: "\<forall>u. \<not> active_user (db w) u \<longrightarrow> conversations w' u = conversations w u"
        proof (intro allI impI)
          fix u assume na: "\<not> active_user (db w) u"
          then have "u \<noteq> ?t" using isact by auto
          with ih(2) na act eff(1) show "conversations w' u = conversations w u" by simp
        qed
        from ih c isact act st1 eff(2) show ?thesis by auto
      qed
    next
      case False
      let ?w2 = "w1\<lparr>logs := logs w1 @
                   [LogInfo (if db_user \<noteq> None
                             then ''Usuario {user_id} encontrado pero no activo (estado={db_user.status}). No se restaura estado.''
                             else ''Usuario {user_id} no encontrado en la base de datos. Eliminando su estado.'')]\<rparr>"
      obtain ok d where e: "execute (db ?w2) = (ok, d)" by (cases "execute (db ?w2)")
      note tabs = execute_tables [OF e]
      show ?thesis
      proof (cases ok)
        case False
        with Cons.prems Some g \<open>\<not> (db_user \<noteq> None \<and> is_active (the db_user))\<close> e
        have "oc = Some OperationalError" and "w' = ?w2\<lparr>db := d\<rparr>"
          by (auto simp: Let_def)
        with tabs eff st1 show ?thesis by (auto simp: stored_users_def)
      next
        case True
        let ?d3 = "d\<lparr>user_states := map_option (filter (\<lambda>r. telegram_id r \<noteq> ?t)) (user_states d)\<rparr>"
        let ?w3 = "?w2\<lparr>db := ?d3\<rparr>"
        from Cons.prems Some g \<open>\<not> (db_user \<noteq> None \<and> is_active (the db_user))\<close> e True
        have rec: "restore_rows loads rows ?w3 = (oc, w')"
          by (auto simp: Let_def)
        have u3: "users (db ?w3) = users (db w)" using tabs eff by simp
        have act3: "active_user (db ?w3) = active_user (db w)"
          using tabs eff by (intro ext) (simp add: active_user_def)
        have "stored_users ?d3 = stored_users d - {?t}"
          by (rule stored_users_filter) simp
        moreover have "stored_users d = stored_users (db w)"
          using tabs eff by (simp add: stored_users_def)
        ultimately have st3: "stored_users (db ?w3) = stored_users (db w) - {?t}" by simp
        have c3: "conversations ?w3 = conversations w" using eff by simp
        from Cons.IH [OF rec] have ih:
          "users (db w') = users (db ?w3)"
          "\<forall>u. \<not> active_user (db ?w3) u \<longrightarrow> conversations w' u = conversations ?w3 u"
          "stored_users (db w') \<subseteq> stored_users (db ?w3)"
          "oc = None \<longrightarrow> (\<forall>r \<in> set rows. \<not> active_user (db ?w3) (telegram_id r)
                 \<longrightarrow> telegram_id r \<notin> stored_users (db w'))"
          by blast+
        from ih(1) u3 have r1: "users (db w') = users (db w)" by simp
        from ih(2) have r2: "\<forall>u. \<not> active_user (db w) u \<longrightarrow> conversations w' u = conversations w u"
          unfolding act3 c3 .
        from ih(3) st3 have r3: "stored_users (db w') \<subseteq> stored_users (db w)" 
          and gone: "?t \<notin> stored_users (db w')" by auto
        from ih(4) gone have r4: "oc = None \<longrightarrow> (\<forall>r \<in> set (row # rows). \<not> active_user (db w) (telegram_id r)
                 \<longrightarrow> telegram_id r \<notin> stored_users (db w'))"
          unfolding act3 by auto
        from r1 r2 r3 r4 show ?thesis by blast
      qed
    qed
  qed
qed


lemma execute_no_fault: "faults d = [] \<Longrightarrow> execute d = (True, d)"
  by (simp add: execute_def)

lemma State_of_state_value: "State_of (state_value s) = Inr s"
  by (cases s) (simp_all add: State_of_def all_states_def)

lemma restore_rows_completes:
  assumes "faults (db w) = []"
    and "list_all (\<lambda>r. falsy (state_data r) \<or> loads (the (state_data r)) \<noteq> None) rows"
    and "list_all (\<lambda>r. state_enum r \<in> set (map state_value all_states)) rows"
  shows "fst (restore_rows loads rows w) = None"
  using assms
proof (induction rows arbitrary: w)
  case Nil
  then show ?case by simp
next
  case (Cons row rows)
  from Cons.prems(3) obtain st where st: "State_of (state_enum row) = Inr st"
    using State_of_state_value by auto
  from Cons.prems(2) obtain sdata where
    sd: "(if falsy (state_data row) then Some Map.empty else loads (the (state_data row))) = Some sdata"
    by (cases "falsy (state_data row)") auto
  have g: "get_by_telegram_id (telegram_id row) w = (users (db w) (telegram_id row), w)"
    using Cons.prems(1) by (simp add: get_by_telegram_id_def execute_no_fault)
  show ?case
  proof (cases "users (db w) (telegram_id row) \<noteq> None \<and> is_active (the (users (db w) (telegram_id row)))")
    case True
    let ?w2 = "w\<lparr>conversations := (conversations w)(telegram_id row \<mapsto> \<lparr>state = st, data = sdata\<rparr>),
                 logs := logs w @ [LogDebug ''Estado restaurado para usuario {user_id}: {State(state_enum).name}'']\<rparr>"
    have "fst (restore_rows loads rows ?w2) = None"
      using Cons.prems by (intro Cons.IH) simp_all
    with True sd g st show ?thesis by simp
  next
    case False
    let ?w2 = "w\<lparr>logs := logs w @
                   [LogInfo (if users (db w) (telegram_id row) \<noteq> None
                             then ''Usuario {user_id} encontrado pero no activo (estado={db_user.status}). No se restaura estado.''
                             else ''Usuario {user_id} no encontrado en la base de datos. Eliminando su estado.'')]\<rparr>"
    let ?w3 = "?w2\<lparr>db := (db ?w2)\<lparr>user_states :=
                  map_option (filter (\<lambda>r. telegram_id r \<noteq> telegram_id row)) (user_states (db ?w2))\<rparr>\<rparr>"
    have e: "execute (db ?w2) = (True, db ?w2)"
      using Cons.prems(1) by (simp add: execute_no_fault)
    have "fst (restore_rows loads rows ?w3) = None"
      using Cons.prems by (intro Cons.IH) simp_all
    with False sd g e show ?thesis by (auto simp: Let_def)
  qed
qed

lemma reload_completes:
  assumes "faults d = []" and wf: "list_all (well_formed_row loads) (stored_rows d)"
  shows "fst (initialize_from_db_try loads \<lparr>conversations = Map.empty, db = d, logs = lg\<rparr>) = None"
proof (cases "user_states d")
  case None
  with assms(1) show ?thesis by (simp add: initialize_from_db_try_def execute_no_fault)
next
  case (Some rows)
  from wf Some have "list_all (\<lambda>r. falsy (state_data r) \<or> loads (the (state_data r)) \<noteq> None) rows"
    and "list_all (\<lambda>r. state_enum r \<in> set (map state_value all_states)) rows"
    by (simp_all add: stored_rows_def well_formed_row_def list_all_iff)
  then have "fst (restore_rows loads rows \<lparr>conversations = Map.empty, db = d, logs = lg\<rparr>) = None"
    using assms(1) by (intro restore_rows_completes) simp_all
  with Some assms(1) show ?thesis
    by (auto simp: initialize_from_db_try_def execute_no_fault split: prod.splits option.splits)
qed

text \<open>
  What holds of the reload at start-up for every store: no user that the table
  of users has as not active, or does not have at all, has a conversation in
  memory; and when the reload has run to its end without an exception, no such
  user has a row in the table of states any more. The reload does run to its
  end when the store works and every row is as \<^verbatim>\<open>_save_to_db\<close> writes it.
\<close>

lemma reload_restores_only_active_users:
  "(\<forall>u. \<not> active_user d u \<longrightarrow> conversations (initialize_from_db loads d lg) u = None) \<and>
   (fst (initialize_from_db_try loads \<lparr>conversations = Map.empty, db = d, logs = lg\<rparr>) = None \<longrightarrow>
      (\<forall>u. \<not> active_user d u \<longrightarrow> u \<notin> stored_users (db (initialize_from_db loads d lg)))) \<and>
   (faults d = [] \<and> list_all (well_formed_row loads) (stored_rows d) \<longrightarrow>
      fst (initialize_from_db_try loads \<lparr>conversations = Map.empty, db = d, logs = lg\<rparr>) = None)"
proof -
  let ?w0 = "\<lparr>conversations = Map.empty, db = d, logs = lg\<rparr> :: 'a world"
  obtain oc w' where t: "initialize_from_db_try loads ?w0 = (oc, w')"
    by (cases "initialize_from_db_try loads ?w0")
  have fin: "conversations (initialize_from_db loads d lg) = conversations w'"
    "db (initialize_from_db loads d lg) = db w'"
    using t by (auto simp: initialize_from_db_def split: option.splits)
  have main: "(\<forall>u. \<not> active_user d u \<longrightarrow> conversations w' u = None) \<and>
      (oc = None \<longrightarrow> (\<forall>u. \<not> active_user d u \<longrightarrow> u \<notin> stored_users (db w')))"
  proof -
    obtain ok1 d1 where e1: "execute d = (ok1, d1)" by (cases "execute d")
    note t1 = execute_tables [OF e1]
    obtain ok2 d2 where e2: "execute d1 = (ok2, d2)" by (cases "execute d1")
    note t2 = execute_tables [OF e2]
    show ?thesis
    proof (cases "ok1 \<and> ok2")
      case False
      with t e1 e2 have "oc \<noteq> None \<and> conversations w' = Map.empty"
        by (cases ok1; cases ok2) (auto simp: initialize_from_db_try_def split: option.splits)
      then show ?thesis by auto
    next
      case True
      show ?thesis
      proof (cases "user_states d1")
        case None
        with t e1 e2 True have "w' = ?w0\<lparr>db := d2\<lparr>user_states := Some []\<rparr>,
              logs := lg @ [LogInfo ''Tabla user_states creada correctamente'']\<rparr>"
          by (auto simp: initialize_from_db_try_def)
        then show ?thesis by (simp add: stored_users_def)
      next
        case (Some rows)
        show ?thesis
        proof (cases "rows = []")
          case True
          with t e1 e2 \<open>ok1 \<and> ok2\<close> Some have "conversations w' = Map.empty"
            and "user_states (db w') = Some []"
            using t2 by (auto simp: initialize_from_db_try_def)
          then show ?thesis by (simp add: stored_users_def)
        next
          case False
          obtain oc' w'' where r: "restore_rows loads rows (?w0\<lparr>db := d2\<rparr>) = (oc', w'')"
            by (cases "restore_rows loads rows (?w0\<lparr>db := d2\<rparr>)")
          from t e1 e2 \<open>ok1 \<and> ok2\<close> Some False r
          have oc: "oc = oc'" and cw: "conversations w' = conversations w''"
            and dw: "db w' = db w''"
            by (auto simp: initialize_from_db_try_def split: option.splits)
          have act: "active_user d2 = active_user d"
            using t1 t2 by (intro ext) (simp add: active_user_def)
          have st: "stored_users d2 = telegram_id ` set rows"
          proof -
            have "user_states d2 = Some rows" using t1 t2 Some by simp
            then show ?thesis by (simp add: stored_users_def)
          qed
          from restore_rows_invariant [OF r]
          have i2: "\<forall>u. \<not> active_user d u \<longrightarrow> conversations w'' u = None"
            and i3: "stored_users (db w'') \<subseteq> telegram_id ` set rows"
            and i4: "oc' = None \<longrightarrow> (\<forall>r \<in> set rows. \<not> active_user d (telegram_id r)
                 \<longrightarrow> telegram_id r \<notin> stored_users (db w''))"
            by (simp_all add: act st)
          from i3 i4 have "oc' = None \<longrightarrow> (\<forall>u. \<not> active_user d u \<longrightarrow> u \<notin> stored_users (db w''))"
            by blast
          with i2 show ?thesis by (simp add: oc cw dw)
        qed
      qed
    qed
  qed
  from main t fin reload_completes [of d loads lg] show ?thesis by simp
qed

text \<open>The reload of the store of the examples, which runs to its end.\<close>

lemma reload_of_example_db:
  "\<not> active_user example_db 2 \<and> \<not> active_user example_db 3 \<and>
   faults example_db = [] \<and>
   list_all (well_formed_row (\<lambda>s. Some (Map.empty :: string \<rightharpoonup> string))) (stored_rows example_db) \<and>
   conversations (initialize_from_db (\<lambda>s. Some (Map.empty :: string \<rightharpoonup> string)) example_db []) 2 = None \<and>
   conversations (initialize_from_db (\<lambda>s. Some (Map.empty :: string \<rightharpoonup> string)) example_db []) 3 = None \<and>
   fst (initialize_from_db_try (\<lambda>s. Some (Map.empty :: string \<rightharpoonup> string))
          \<lparr>conversations = Map.empty, db = example_db, logs = []\<rparr>) = None \<and>
   2 \<notin> stored_users (db (initialize_from_db (\<lambda>s. Some (Map.empty :: string \<rightharpoonup> string)) example_db [])) \<and>
   3 \<notin> stored_users (db (initialize_from_db (\<lambda>s. Some (Map.empty :: string \<rightharpoonup> string)) example_db [])) \<and>
   map_option state
     (conversations (initialize_from_db (\<lambda>s. Some (Map.empty :: string \<rightharpoonup> string)) example_db []) 1)
     = Some UPLOADING_TEMPLATE"
proof -
  have a: "\<not> active_user example_db 2" "\<not> active_user example_db 3"
    by (simp_all add: active_user_def example_db_def is_active_def)
  have f: "faults example_db = []" by (simp add: example_db_def)
  have wf: "list_all (well_formed_row (\<lambda>s. Some (Map.empty :: string \<rightharpoonup> string)))
              (stored_rows example_db)"
    by (simp add: stored_rows_def example_db_def well_formed_row_def all_states_def)
  from reload_restores_only_active_users
         [of example_db "\<lambda>s. Some (Map.empty :: string \<rightharpoonup> string)" "[]"] f wf
  have c: "fst (initialize_from_db_try (\<lambda>s. Some (Map.empty :: string \<rightharpoonup> string))
          \<lparr>conversations = Map.empty, db = example_db, logs = []\<rparr>) = None"
    by blast
  have r: "map_option state
     (conversations (initialize_from_db (\<lambda>s. Some (Map.empty :: string \<rightharpoonup> string)) example_db []) 1)
     = Some UPLOADING_TEMPLATE"
    by (simp add: initialize_from_db_def initialize_from_db_try_def example_db_def execute_def
        get_by_telegram_id_def is_active_def State_of_def all_states_def falsy_def Let_def)
  from reload_restores_only_active_users
         [of example_db "\<lambda>s. Some (Map.empty :: string \<rightharpoonup> string)" "[]"] a c r f wf
  show ?thesis by blast
qed

text \<open>
  Claim C5. After the reload, a user that is not active, or not known, should
  have no row in the table of states any more, as the comments of the loop say.
  One \<^verbatim>\<open>try\<close> block holds the whole loop: in the store below the first row
  belongs to the active user 1 and has a number that \<^verbatim>\<open>State\<close> rejects, so the
  loop ends there with a \<^verbatim>\<open>ValueError\<close>, which is logged. The rows of user 2,
  who is not active, and of user 3, who is not known, are never reached and stay
  in the table; no conversation is restored.
\<close>

theorem reload_stops_at_unreadable_row:
  "\<not> active_user bad_row_db 2 \<and> \<not> active_user bad_row_db 3 \<and>
   stored_users bad_row_db = {1, 2, 3} \<and>
   stored_users (db (initialize_from_db (\<lambda>s. Some (Map.empty :: string \<rightharpoonup> string)) bad_row_db []))
     = {1, 2, 3} \<and>
   user_states (db (initialize_from_db (\<lambda>s. Some (Map.empty :: string \<rightharpoonup> string)) bad_row_db []))
     = user_states bad_row_db \<and>
   conversations (initialize_from_db (\<lambda>s. Some (Map.empty :: string \<rightharpoonup> string)) bad_row_db [])
     = Map.empty \<and>
   logs (initialize_from_db (\<lambda>s. Some (Map.empty :: string \<rightharpoonup> string)) bad_row_db [])
     = [LogError ''Error al inicializar estados desde la base de datos: {e}''
          (ValueError ''is not a valid State'')]"
  by (simp add: initialize_from_db_def initialize_from_db_try_def bad_row_db_def example_db_def
      execute_def get_by_telegram_id_def is_active_def State_of_def all_states_def falsy_def
      active_user_def stored_users_def Let_def)

section \<open>The commit of the custom placeholders\<close>

lemma save_to_db_custom_placeholders:
  "custom_placeholders (db (save_to_db dumps u w)) = custom_placeholders (db w)"
proof -
  obtain ok d where e: "execute (db w) = (ok, d)" by (cases "execute (db w)")
  from execute_tables(3) [OF e] e show ?thesis
    by (cases ok) (auto simp: save_to_db_def save_to_db_try_def split: option.splits)
qed

lemma set_state_phase: "fst (get_state u (set_state dumps u st w)) = st"
  by (auto simp: get_state_def set_state_def get_conversation_def save_to_db_conversations
      update_state_def Let_def split: option.splits prod.splits)

lemma set_state_custom_placeholders:
  "custom_placeholders (db (set_state dumps u st w)) = custom_placeholders (db w)"
  by (auto simp: set_state_def get_conversation_def save_to_db_custom_placeholders Let_def
      split: option.splits)

lemma create_all_world: "snd (create_all site cs n w) = snd (create_all site cs m w)"
  by (induction cs arbitrary: n m w) (auto split: prod.splits)

lemma create_all_count:
  "fst (create_all site cs n w) =
     n + length (filter (\<lambda>i. fst (add_config site (cs ! i) (snd (create_all site (take i cs) 0 w))) \<noteq> None)
                   [0..<length cs])"
proof (induction cs arbitrary: n w)
  case Nil
  then show ?case by simp
next
  case (Cons c cs)
  obtain r w' where a: "add_config site c w = (r, w')" by (cases "add_config site c w")
  let ?P = "\<lambda>i. fst (add_config site ((c # cs) ! i) (snd (create_all site (take i (c # cs)) 0 w))) \<noteq> None"
  let ?Q = "\<lambda>i. fst (add_config site (cs ! i) (snd (create_all site (take i cs) 0 w'))) \<noteq> None"
  have shift: "?P (Suc i) = ?Q i" for i
    using a create_all_world [of site "take i cs" "if r \<noteq> None then 0 + 1 else 0" w' 0]
    by simp
  have p0: "?P 0 = (r \<noteq> None)" using a by simp
  have "[0..<length (c # cs)] = 0 # map Suc [0..<length cs]"
    by (simp add: upt_conv_Cons map_Suc_upt del: upt_Suc)
  then have "length (filter ?P [0..<length (c # cs)]) =
      (if r \<noteq> None then 1 else 0) + length (filter (?P \<circ> Suc) [0..<length cs])"
    using p0 by (simp add: filter_map del: upt_Suc)
  also have "?P \<circ> Suc = ?Q" using shift by (auto simp: fun_eq_iff)
  finally have len: "length (filter ?P [0..<length (c # cs)]) =
      (if r \<noteq> None then 1 else 0) + length (filter ?Q [0..<length cs])" .
  have "fst (create_all site (c # cs) n w) =
      fst (create_all site cs (if r \<noteq> None then n + 1 else n) w')"
    using a by simp
  also have "\<dots> = (if r \<noteq> None then n + 1 else n) + length (filter ?Q [0..<length cs])"
    by (rule Cons.IH)
  finally show ?case using len by simp
qed

lemma delete_site_placeholders_done:
  "fst (execute (db w)) \<Longrightarrow>
     filter (\<lambda>r. site_id r = site_pk site)
       (custom_placeholders (db (delete_site_placeholders site w))) = []"
  by (cases "execute (db w)") (auto simp: delete_site_placeholders_def filter_empty_conv)

lemma get_by_telegram_id_custom_placeholders:
  "custom_placeholders (db (snd (get_by_telegram_id t w))) = custom_placeholders (db w)"
proof -
  obtain ok d where e: "execute (db w) = (ok, d)" by (cases "execute (db w)")
  from execute_tables(3) [OF e] e show ?thesis
    by (cases ok) (simp_all add: get_by_telegram_id_def)
qed

lemma get_by_user_id_custom_placeholders:
  "custom_placeholders (db (snd (get_by_user_id uid w))) = custom_placeholders (db w)"
proof -
  obtain ok d where e: "execute (db w) = (ok, d)" by (cases "execute (db w)")
  from execute_tables(3) [OF e] e show ?thesis
    by (cases ok) (simp_all add: get_by_user_id_def)
qed

lemma empty_drafts_commit_nothing:
  assumes "custom_phs = None \<or> the custom_phs = [] \<or> length (the custom_phs) \<le> current_index"
  shows "fst (configure_next_custom_placeholder dumps user_id custom_phs current_index (Some []) w)
           = NothingConfigured \<and>
         custom_placeholders (db (snd (configure_next_custom_placeholder dumps user_id custom_phs
                                         current_index (Some []) w)))
           = custom_placeholders (db w)"
proof -
  obtain db_user w1 where u: "get_by_telegram_id user_id w = (db_user, w1)"
    by (cases "get_by_telegram_id user_id w")
  obtain user_sites w2 where s:
    "(case db_user of None \<Rightarrow> ([], w1) | Some usr \<Rightarrow> get_by_user_id (user_pk usr) w1) = (user_sites, w2)"
    by (cases "case db_user of None \<Rightarrow> ([], w1) | Some usr \<Rightarrow> get_by_user_id (user_pk usr) w1")
  have c1: "custom_placeholders (db w1) = custom_placeholders (db w)"
    using get_by_telegram_id_custom_placeholders [of user_id w] u by simp
  have c2: "custom_placeholders (db w2) = custom_placeholders (db w1)"
  proof (cases db_user)
    case None
    with s show ?thesis by simp
  next
    case (Some usr)
    with s get_by_user_id_custom_placeholders [of "user_pk usr" w1] show ?thesis by simp
  qed
  have run: "configure_next_custom_placeholder dumps user_id custom_phs current_index (Some []) w
      = (NothingConfigured, set_state dumps user_id IDLE w2)"
    using assms u s by (cases user_sites) (auto simp: configure_next_custom_placeholder_def)
  show ?thesis unfolding run by (simp add: set_state_custom_placeholders c1 c2)
qed

text \<open>
  Claim C8, as the code has it. When the index has reached the end of the list
  of unknown placeholders, the user has a site and the draft list is not empty,
  the commit first tries to delete the custom placeholders of the site (none is
  left when the store executes the deletion), then tries to create every draft
  record in the order of the list, each in the store that the earlier attempts
  left, whether they failed or not; the message gives the number of attempts
  that returned a record out of the number of draft records, and the phase goes
  back to idle. With an empty draft list nothing is deleted or created, and the
  message says that no placeholder was configured.
\<close>

theorem commit_attempts_every_draft:
  assumes finished: "custom_phs = None \<or> the custom_phs = [] \<or> length (the custom_phs) \<le> current_index"
    and user: "get_by_telegram_id user_id w = (Some u, w1)"
    and site: "get_by_user_id (user_pk u) w1 = (site # others, w2)"
    and drafts: "configs \<noteq> []"
  shows "fst (configure_next_custom_placeholder dumps user_id custom_phs current_index (Some configs) w)
           = Configured
               (length (filter
                  (\<lambda>i. fst (add_config site (configs ! i)
                              (snd (create_all site (take i configs) 0
                                      (delete_site_placeholders site w2)))) \<noteq> None)
                  [0..<length configs]))
               (length configs) \<and>
         custom_placeholders (db (snd (configure_next_custom_placeholder dumps user_id custom_phs
                                         current_index (Some configs) w)))
           = custom_placeholders (db (snd (create_all site configs 0
                                             (delete_site_placeholders site w2)))) \<and>
         (fst (execute (db w2)) \<longrightarrow>
            filter (\<lambda>r. site_id r = site_pk site)
              (custom_placeholders (db (delete_site_placeholders site w2))) = []) \<and>
         fst (get_state user_id (snd (configure_next_custom_placeholder dumps user_id custom_phs
                                        current_index (Some configs) w))) = IDLE \<and>
         fst (configure_next_custom_placeholder dumps user_id custom_phs current_index (Some []) w)
           = NothingConfigured \<and>
         custom_placeholders (db (snd (configure_next_custom_placeholder dumps user_id custom_phs
                                         current_index (Some []) w)))
           = custom_placeholders (db w)"
proof -
  let ?w3 = "delete_site_placeholders site w2"
  obtain n w4 where c: "create_all site configs 0 ?w3 = (n, w4)"
    by (cases "create_all site configs 0 ?w3")
  have run: "configure_next_custom_placeholder dumps user_id custom_phs current_index (Some configs) w
      = (Configured n (length configs), set_state dumps user_id IDLE w4)"
    using finished user site drafts c
    by (auto simp: configure_next_custom_placeholder_def)
  have n: "n = length (filter
                  (\<lambda>i. fst (add_config site (configs ! i)
                              (snd (create_all site (take i configs) 0 ?w3))) \<noteq> None)
                  [0..<length configs])"
    using create_all_count [of site configs 0 ?w3] c by simp
  have w4: "w4 = snd (create_all site configs 0 ?w3)" using c by simp
  note none = empty_drafts_commit_nothing [OF finished, of dumps user_id w]
  show ?thesis
    unfolding run using none
    by (simp add: n w4 set_state_custom_placeholders set_state_phase delete_site_placeholders_done)
qed

theorem commit_attempts_every_draft_witness:
  "fst (configure_next_custom_placeholder (\<lambda>m. Some ''{}'') 1
          (Some [''{{FOO}}'', ''{{foo}}'', ''{{BAR}}'']) 3 (Some example_drafts) configuring_world)
     = Configured 2 3 \<and>
   custom_placeholders (db (snd (configure_next_custom_placeholder (\<lambda>m. Some ''{}'') 1
          (Some [''{{FOO}}'', ''{{foo}}'', ''{{BAR}}'']) 3 (Some example_drafts) configuring_world)))
     = [\<lparr>row_id = Some 2, site_id = 4, placeholder_name = ''FOO'', display_name = ''Foo label'',
         placeholder_type = ''texto'', options = None\<rparr>,
        \<lparr>row_id = Some 3, site_id = 4, placeholder_name = ''BAR'', display_name = ''Bar label'',
         placeholder_type = ''desplegable'', options = Some ''a,b''\<rparr>] \<and>
   fst (get_state 1 (snd (configure_next_custom_placeholder (\<lambda>m. Some ''{}'') 1
          (Some [''{{FOO}}'', ''{{foo}}'', ''{{BAR}}'']) 3 (Some example_drafts) configuring_world)))
     = IDLE"
proof -
  let ?w = "configuring_world\<lparr>db := example_db\<rparr>"
  have f: "Some [''{{FOO}}'', ''{{foo}}'', ''{{BAR}}''] = None \<or>
           the (Some [''{{FOO}}'', ''{{foo}}'', ''{{BAR}}'']) = [] \<or>
           length (the (Some [''{{FOO}}'', ''{{foo}}'', ''{{BAR}}''])) \<le> 3"
    by simp
  have u: "get_by_telegram_id 1 configuring_world = (Some \<lparr>user_pk = 10, status = ''active''\<rparr>, ?w)"
    by (simp add: get_by_telegram_id_def configuring_world_def example_db_def execute_def)
  have s: "get_by_user_id (user_pk \<lparr>user_pk = 10, status = ''active''\<rparr>) ?w
             = (\<lparr>site_pk = 4, owner = 10\<rparr> # [], ?w)"
    by (simp add: get_by_user_id_def configuring_world_def example_db_def execute_def)
  have d: "example_drafts \<noteq> []" by (simp add: example_drafts_def)
  have del: "custom_placeholders (db (delete_site_placeholders \<lparr>site_pk = 4, owner = 10\<rparr> ?w)) = []"
    by (simp add: delete_site_placeholders_def configuring_world_def example_db_def execute_def)
  have tab: "custom_placeholders (db (snd (create_all \<lparr>site_pk = 4, owner = 10\<rparr> example_drafts 0
               (delete_site_placeholders \<lparr>site_pk = 4, owner = 10\<rparr> ?w))))
     = [\<lparr>row_id = Some 2, site_id = 4, placeholder_name = ''FOO'', display_name = ''Foo label'',
         placeholder_type = ''texto'', options = None\<rparr>,
        \<lparr>row_id = Some 3, site_id = 4, placeholder_name = ''BAR'', display_name = ''Bar label'',
         placeholder_type = ''desplegable'', options = Some ''a,b''\<rparr>]"
    by (simp add: delete_site_placeholders_def configuring_world_def example_db_def execute_def
        example_drafts_def add_config_def add_custom_placeholder_def create_def startswith_def
        endswith_def Let_def)
  have cnt: "length (filter
                  (\<lambda>i. fst (add_config \<lparr>site_pk = 4, owner = 10\<rparr> (example_drafts ! i)
                              (snd (create_all \<lparr>site_pk = 4, owner = 10\<rparr> (take i example_drafts) 0
                                      (delete_site_placeholders \<lparr>site_pk = 4, owner = 10\<rparr> ?w)))) \<noteq> None)
                  [0..<length example_drafts]) = 2"
    by (simp add: delete_site_placeholders_def configuring_world_def example_db_def execute_def
        example_drafts_def add_config_def add_custom_placeholder_def create_def startswith_def
        endswith_def Let_def upt_rec)
  have len: "length example_drafts = 3" by (simp add: example_drafts_def)
  note main = commit_attempts_every_draft [OF f u s d, of "\<lambda>m. Some ''{}''", unfolded cnt tab]
  from main show ?thesis unfolding len by blast
qed

text \<open>
  The claim as it was stated fails when every placeholder was skipped: the index
  is at the end of the list and the draft list is empty, the custom placeholder
  that the site had is still there, and the message gives no count.
\<close>

theorem empty_draft_list_commits_nothing:
  "fst (configure_next_custom_placeholder (\<lambda>m. Some ''{}'') 1 (Some [''{{FOO}}'']) 1 (Some [])
          configuring_world) = NothingConfigured \<and>
   custom_placeholders (db (snd (configure_next_custom_placeholder (\<lambda>m. Some ''{}'') 1
          (Some [''{{FOO}}'']) 1 (Some []) configuring_world)))
     = [\<lparr>row_id = Some 1, site_id = 4, placeholder_name = ''AUTHOR'', display_name = ''Autor'',
         placeholder_type = ''texto'', options = None\<rparr>]"
  by (simp add: configure_next_custom_placeholder_def get_by_telegram_id_def
      get_by_user_id_def configuring_world_def example_db_def execute_def set_state_def
      get_conversation_def update_state_def save_to_db_def save_to_db_try_def)

end
